theory Spec2Isabelle
  imports Main
begin

section \<open>Room manager (server, rooms.ts)\<close>

text \<open>
  The room manager keeps a module-level \<^verbatim>\<open>Map<string, Room>\<close>. A room is an object with
  the fields \<^verbatim>\<open>id\<close>, \<^verbatim>\<open>mode\<close> and \<^verbatim>\<open>participants\<close>. The map is modelled as a
  partial function that every operation takes and returns; the room an operation returns
  is the object stored in the map, so it is returned next to the updated map.
\<close>

datatype RoomMode = P2P | SFU

record Room =
  id_room :: string
  mode :: RoomMode
  participants :: "string list"

type_synonym rooms = "string \<rightharpoonup> Room"

definition getRoom :: "string \<Rightarrow> rooms \<Rightarrow> Room option" where
  "getRoom roomId rooms = rooms roomId"

definition createRoom :: "string \<Rightarrow> string \<Rightarrow> rooms \<Rightarrow> Room \<times> rooms" where
  "createRoom roomId userId rooms =
     (let room = \<lparr>id_room = roomId, mode = P2P, participants = [userId]\<rparr>
      in (room, rooms(roomId \<mapsto> room)))"

text \<open>The mode update that ends both \<^verbatim>\<open>joinRoom\<close> and \<^verbatim>\<open>leaveRoom\<close>.\<close>

definition updateMode :: "Room \<Rightarrow> Room" where
  "updateMode room =
     (if length (participants room) \<le> 2 then room\<lparr>mode := P2P\<rparr> else room\<lparr>mode := SFU\<rparr>)"

definition joinRoom :: "string \<Rightarrow> string \<Rightarrow> rooms \<Rightarrow> Room \<times> rooms" where
  "joinRoom roomId userId rooms =
     (let (room, rooms1) =
            (case rooms roomId of
               None \<Rightarrow> createRoom roomId userId rooms
             | Some room \<Rightarrow>
                 (if userId \<notin> set (participants room)
                  then (let room1 = room\<lparr>participants := participants room @ [userId]\<rparr>
                        in (room1, rooms(roomId \<mapsto> room1)))
                  else (room, rooms)));
          room2 = updateMode room
      in (room2, rooms1(roomId \<mapsto> room2)))"

definition leaveRoom :: "string \<Rightarrow> string \<Rightarrow> rooms \<Rightarrow> Room option \<times> rooms" where
  "leaveRoom roomId userId rooms =
     (case rooms roomId of
        None \<Rightarrow> (None, rooms)
      | Some room \<Rightarrow>
          (let room1 = room\<lparr>participants := filter (\<lambda>i. i \<noteq> userId) (participants room)\<rparr>
           in if length (participants room1) = 0
              then (None, rooms(roomId := None))
              else (let room2 = updateMode room1
                    in (Some room2, rooms(roomId \<mapsto> room2)))))"

text \<open>Sequences of registry operations, run from left to right.\<close>

datatype RegistryOp = Join string string | Leave string string

fun applyOp :: "RegistryOp \<Rightarrow> rooms \<Rightarrow> rooms" where
  "applyOp (Join roomId userId) rooms = snd (joinRoom roomId userId rooms)"
| "applyOp (Leave roomId userId) rooms = snd (leaveRoom roomId userId rooms)"

fun runOps :: "RegistryOp list \<Rightarrow> rooms \<Rightarrow> rooms" where
  "runOps [] rooms = rooms"
| "runOps (op # ops) rooms = runOps ops (applyOp op rooms)"

text \<open>The consistency of a room's mode with its size, and of a whole registry.\<close>

definition modeConsistent :: "Room \<Rightarrow> bool" where
  "modeConsistent room \<longleftrightarrow>
     (mode room = SFU \<longleftrightarrow> 3 \<le> length (participants room)) \<and>
     (mode room = P2P \<longleftrightarrow> length (participants room) \<le> 2)"

definition wellFormed :: "rooms \<Rightarrow> bool" where
  "wellFormed rooms \<longleftrightarrow>
     (\<forall>k room. rooms k = Some room \<longrightarrow>
        id_room room = k \<and> modeConsistent room \<and> distinct (participants room) \<and>
        participants room \<noteq> [])"

section \<open>REST endpoint and signalling relay (server, index.ts)\<close>

text \<open>
  \<^verbatim>\<open>POST /api/room\<close> reads \<^verbatim>\<open>roomId\<close> and \<^verbatim>\<open>userId\<close> from the request body and
  answers 400 when either is falsy; a body field is modelled as an optional string, which
  is falsy when it is absent or empty. Only then is \<^verbatim>\<open>joinRoom\<close> called.
\<close>

datatype HttpResponse =
    Status400 string
  | Status500 string
  | JsonRoom string RoomMode nat

definition postApiRoom ::
  "string option \<Rightarrow> string option \<Rightarrow> rooms \<Rightarrow> HttpResponse \<times> rooms" where
  "postApiRoom roomId userId rooms =
     (case (roomId, userId) of
        (Some r, Some u) \<Rightarrow>
          (if r = [] \<or> u = [] then (Status400 ''roomId and userId are required'', rooms)
           else (let (room, rooms1) = joinRoom r u rooms
                 in (JsonRoom (id_room room) (mode room) (length (participants room)), rooms1)))
      | _ \<Rightarrow> (Status400 ''roomId and userId are required'', rooms))"

text \<open>
  The relay. Every Socket.IO connection has an identifier, the object \<^verbatim>\<open>socket.data\<close>
  (empty at connection time) and the set of Socket.IO rooms it has joined (its own
  identifier at connection time). \<^verbatim>\<open>io.to(r).emit\<close> addresses every connection in room
  \<^verbatim>\<open>r\<close>, \<^verbatim>\<open>socket.to(r).emit\<close> every one but the sender. What the server emits is
  kept as a log of addressed events.
\<close>

type_synonym SocketId = string

record SocketData =
  data_roomId :: "string option"
  data_userId :: "string option"

datatype ServerEvent =
    ModeChanged string RoomMode RoomMode "string list"
  | RoomUpdated string RoomMode "string list"
  | FwdOffer string string
  | FwdAnswer string string
  | FwdIceCandidate string string

datatype Target = ToRoom string | ToRoomExcept string SocketId

record Server =
  registry :: rooms
  sockets :: "SocketId \<rightharpoonup> SocketData"
  socketRooms :: "SocketId \<Rightarrow> string set"
  emitted :: "(Target \<times> ServerEvent) list"

definition initialServer :: Server where
  "initialServer =
     \<lparr>registry = Map.empty, sockets = Map.empty, socketRooms = (\<lambda>_. {}), emitted = []\<rparr>"

definition recipients :: "Target \<Rightarrow> Server \<Rightarrow> SocketId set" where
  "recipients t S =
     (case t of
        ToRoom r \<Rightarrow> {s. sockets S s \<noteq> None \<and> r \<in> socketRooms S s}
      | ToRoomExcept r sender \<Rightarrow>
          {s. sockets S s \<noteq> None \<and> r \<in> socketRooms S s \<and> s \<noteq> sender})"

definition onConnection :: "SocketId \<Rightarrow> Server \<Rightarrow> Server" where
  "onConnection sid S =
     S\<lparr>sockets := (sockets S)(sid \<mapsto> \<lparr>data_roomId = None, data_userId = None\<rparr>),
       socketRooms := (socketRooms S)(sid := {sid})\<rparr>"

definition onJoinRoom :: "SocketId \<Rightarrow> string \<Rightarrow> string \<Rightarrow> Server \<Rightarrow> Server" where
  "onJoinRoom sid roomId userId S =
     (let S1 = S\<lparr>socketRooms := (socketRooms S)(sid := insert roomId (socketRooms S sid)),
                 sockets := (sockets S)(sid \<mapsto>
                    \<lparr>data_roomId = Some roomId, data_userId = Some userId\<rparr>)\<rparr>;
          previousMode = map_option mode (getRoom roomId (registry S1));
          (room, rooms1) = joinRoom roomId userId (registry S1);
          modeChanged =
            (case previousMode of
               None \<Rightarrow> []
             | Some pm \<Rightarrow>
                 (if pm \<noteq> mode room
                  then [(ToRoom roomId, ModeChanged roomId pm (mode room) (participants room))]
                  else []))
      in S1\<lparr>registry := rooms1,
            emitted := emitted S1 @ modeChanged @
              [(ToRoom roomId, RoomUpdated roomId (mode room) (participants room))]\<rparr>)"

definition onWebrtcOfferRelay ::
  "SocketId \<Rightarrow> string \<Rightarrow> string \<Rightarrow> string \<Rightarrow> Server \<Rightarrow> Server" where
  "onWebrtcOfferRelay sid roomId from offer S =
     S\<lparr>emitted := emitted S @ [(ToRoomExcept roomId sid, FwdOffer from offer)]\<rparr>"

definition onWebrtcAnswerRelay ::
  "SocketId \<Rightarrow> string \<Rightarrow> string \<Rightarrow> string \<Rightarrow> Server \<Rightarrow> Server" where
  "onWebrtcAnswerRelay sid roomId from answer S =
     S\<lparr>emitted := emitted S @ [(ToRoomExcept roomId sid, FwdAnswer from answer)]\<rparr>"

definition onWebrtcIceCandidateRelay ::
  "SocketId \<Rightarrow> string \<Rightarrow> string \<Rightarrow> string \<Rightarrow> Server \<Rightarrow> Server" where
  "onWebrtcIceCandidateRelay sid roomId from candidate S =
     S\<lparr>emitted := emitted S @ [(ToRoomExcept roomId sid, FwdIceCandidate from candidate)]\<rparr>"

text \<open>
  On disconnect the connection has left its Socket.IO rooms and is gone afterwards. The
  handler reads \<^verbatim>\<open>socket.data\<close> and cleans up only when both fields are truthy, that is
  present and not the empty string.
\<close>

definition onDisconnect :: "SocketId \<Rightarrow> Server \<Rightarrow> Server" where
  "onDisconnect sid S =
     (case sockets S sid of
        None \<Rightarrow> S
      | Some d \<Rightarrow>
          (let S1 = S\<lparr>sockets := (sockets S)(sid := None),
                      socketRooms := (socketRooms S)(sid := {})\<rparr>
           in case (data_roomId d, data_userId d) of
                (Some roomId, Some userId) \<Rightarrow>
                  (if roomId \<noteq> [] \<and> userId \<noteq> []
                   then (let previousMode = map_option mode (getRoom roomId (registry S1));
                             (room, rooms1) = leaveRoom roomId userId (registry S1);
                             modeChanged =
                               (case (room, previousMode) of
                                  (Some r, Some pm) \<Rightarrow>
                                    (if pm \<noteq> mode r
                                     then [(ToRoom roomId,
                                            ModeChanged roomId pm (mode r) (participants r))]
                                     else [])
                                | _ \<Rightarrow> [])
                         in S1\<lparr>registry := rooms1,
                               emitted := emitted S1 @ modeChanged @
                                 [(ToRoom roomId,
                                   RoomUpdated roomId
                                     (case room of Some r \<Rightarrow> mode r | None \<Rightarrow> P2P)
                                     (case room of Some r \<Rightarrow> participants r | None \<Rightarrow> []))]\<rparr>)
                   else S1)
              | _ \<Rightarrow> S1))"

text \<open>
  What a client can make the relay do: open a connection, send one of the four messages,
  or disconnect. The handlers of a connection exist only while it is connected, and a new
  connection always gets a fresh identifier.
\<close>

datatype ClientEvent =
    Connection
  | JoinRoomMsg string string
  | WebrtcOfferMsg string string string
  | WebrtcAnswerMsg string string string
  | WebrtcIceCandidateMsg string string string
  | Disconnect

fun serverStep :: "SocketId \<times> ClientEvent \<Rightarrow> Server \<Rightarrow> Server" where
  "serverStep (sid, Connection) S =
     (if sockets S sid = None then onConnection sid S else S)"
| "serverStep (sid, ev) S =
     (if sockets S sid = None then S
      else (case ev of
              JoinRoomMsg roomId userId \<Rightarrow> onJoinRoom sid roomId userId S
            | WebrtcOfferMsg roomId from offer \<Rightarrow> onWebrtcOfferRelay sid roomId from offer S
            | WebrtcAnswerMsg roomId from answer \<Rightarrow> onWebrtcAnswerRelay sid roomId from answer S
            | WebrtcIceCandidateMsg roomId from candidate \<Rightarrow>
                onWebrtcIceCandidateRelay sid roomId from candidate S
            | Disconnect \<Rightarrow> onDisconnect sid S
            | Connection \<Rightarrow> S))"

fun runServer :: "(SocketId \<times> ClientEvent) list \<Rightarrow> Server \<Rightarrow> Server" where
  "runServer [] S = S"
| "runServer (e # es) S = runServer es (serverStep e S)"

text \<open>The messages that the relay only forwards.\<close>

fun isRelayed :: "ClientEvent \<Rightarrow> bool" where
  "isRelayed (WebrtcOfferMsg r f x) = True"
| "isRelayed (WebrtcAnswerMsg r f x) = True"
| "isRelayed (WebrtcIceCandidateMsg r f x) = True"
| "isRelayed ev = False"

section \<open>Negotiating peer (client, P2PCall.tsx)\<close>

subsection \<open>The browser's peer connection\<close>

text \<open>
  The component drives an \<^verbatim>\<open>RTCPeerConnection\<close>, which belongs to the browser. Its part
  that the handlers read and write is modelled after the WebRTC recommendation: the
  signalling state, the pending and current descriptions of both sides, and the remote
  candidates added so far. \<^verbatim>\<open>remoteDescription\<close> is the pending remote description if
  there is one and the current one otherwise. A call that the recommendation rejects in
  the given signalling state fails with \<^verbatim>\<open>InvalidStateError\<close> and leaves the connection
  as it was. Browsers differ in what they do with an offer that is set as remote
  description while a local offer is pending: some roll the local offer back themselves
  (the implicit rollback of the recommendation), others reject the call. Which of the two
  the browser does, whether it can parse a remote description or a candidate, and the
  text of the descriptions it creates, is not decided here: these are parameters.
  Descriptions are offers or answers; provisional answers do not occur.

  The payload of a candidate message is the dictionary from which the handler builds an
  \<^verbatim>\<open>RTCIceCandidate\<close>. The constructor throws a \<^verbatim>\<open>TypeError\<close> when the payload has
  neither \<^verbatim>\<open>sdpMid\<close> nor \<^verbatim>\<open>sdpMLineIndex\<close>; otherwise the candidate holds the fields
  of the payload.
\<close>

datatype SdpType = OfferType | AnswerType

record SessionDescription =
  sdpType :: SdpType
  sdp :: string

record IceCandidateInit =
  candidate :: string
  sdpMid :: "string option"
  sdpMLineIndex :: "nat option"

type_synonym IceCandidate = IceCandidateInit

datatype SignalingState = Stable | HaveLocalOffer | HaveRemoteOffer | Closed

datatype RTCError = InvalidStateError | OperationError | TypeError

record PeerConnection =
  signalingState :: SignalingState
  pendingLocalDescription :: "SessionDescription option"
  currentLocalDescription :: "SessionDescription option"
  pendingRemoteDescription :: "SessionDescription option"
  currentRemoteDescription :: "SessionDescription option"
  addedCandidates :: "IceCandidate list"

record Browser =
  offerSdp :: "PeerConnection \<Rightarrow> string"
  answerSdp :: "PeerConnection \<Rightarrow> string"
  acceptsDescription :: "SessionDescription \<Rightarrow> bool"
  acceptsCandidate :: "IceCandidate \<Rightarrow> bool"
  implicitRollback :: bool

definition newPeerConnection :: PeerConnection where
  "newPeerConnection =
     \<lparr>signalingState = Stable,
      pendingLocalDescription = None, currentLocalDescription = None,
      pendingRemoteDescription = None, currentRemoteDescription = None,
      addedCandidates = []\<rparr>"

definition remoteDescription :: "PeerConnection \<Rightarrow> SessionDescription option" where
  "remoteDescription c =
     (case pendingRemoteDescription c of
        Some d \<Rightarrow> Some d
      | None \<Rightarrow> currentRemoteDescription c)"

definition pc_createOffer :: "Browser \<Rightarrow> PeerConnection \<Rightarrow> RTCError + SessionDescription" where
  "pc_createOffer B c =
     (if signalingState c = Closed then Inl InvalidStateError
      else Inr \<lparr>sdpType = OfferType, sdp = offerSdp B c\<rparr>)"

definition pc_createAnswer :: "Browser \<Rightarrow> PeerConnection \<Rightarrow> RTCError + SessionDescription" where
  "pc_createAnswer B c =
     (if signalingState c = HaveRemoteOffer
      then Inr \<lparr>sdpType = AnswerType, sdp = answerSdp B c\<rparr>
      else Inl InvalidStateError)"

definition pc_rollback :: "PeerConnection \<Rightarrow> RTCError + PeerConnection" where
  "pc_rollback c =
     (case signalingState c of
        HaveLocalOffer \<Rightarrow>
          Inr (c\<lparr>pendingLocalDescription := None, signalingState := Stable\<rparr>)
      | HaveRemoteOffer \<Rightarrow>
          Inr (c\<lparr>pendingRemoteDescription := None, signalingState := Stable\<rparr>)
      | _ \<Rightarrow> Inl InvalidStateError)"

definition pc_setLocalDescription ::
  "SessionDescription \<Rightarrow> PeerConnection \<Rightarrow> RTCError + PeerConnection" where
  "pc_setLocalDescription d c =
     (case sdpType d of
        OfferType \<Rightarrow>
          (if signalingState c = Stable \<or> signalingState c = HaveLocalOffer
           then Inr (c\<lparr>pendingLocalDescription := Some d, signalingState := HaveLocalOffer\<rparr>)
           else Inl InvalidStateError)
      | AnswerType \<Rightarrow>
          (if signalingState c = HaveRemoteOffer
           then Inr (c\<lparr>currentLocalDescription := Some d,
                        currentRemoteDescription := pendingRemoteDescription c,
                        pendingLocalDescription := None,
                        pendingRemoteDescription := None,
                        signalingState := Stable\<rparr>)
           else Inl InvalidStateError))"

definition pc_setRemoteDescription ::
  "Browser \<Rightarrow> SessionDescription \<Rightarrow> PeerConnection \<Rightarrow> RTCError + PeerConnection" where
  "pc_setRemoteDescription B d c =
     (if signalingState c = Closed then Inl InvalidStateError
      else if \<not> acceptsDescription B d then Inl OperationError
      else (case sdpType d of
              OfferType \<Rightarrow>
                (if signalingState c = HaveLocalOffer
                 then (if implicitRollback B
                       then Inr (c\<lparr>pendingLocalDescription := None,
                                    pendingRemoteDescription := Some d,
                                    signalingState := HaveRemoteOffer\<rparr>)
                       else Inl InvalidStateError)
                 else Inr (c\<lparr>pendingRemoteDescription := Some d,
                              signalingState := HaveRemoteOffer\<rparr>))
            | AnswerType \<Rightarrow>
                (if signalingState c = HaveLocalOffer
                 then Inr (c\<lparr>currentRemoteDescription := Some d,
                              currentLocalDescription := pendingLocalDescription c,
                              pendingLocalDescription := None,
                              pendingRemoteDescription := None,
                              signalingState := Stable\<rparr>)
                 else Inl InvalidStateError)))"

definition newRTCIceCandidate :: "IceCandidateInit \<Rightarrow> RTCError + IceCandidate" where
  "newRTCIceCandidate init =
     (if sdpMid init = None \<and> sdpMLineIndex init = None then Inl TypeError else Inr init)"

definition pc_addIceCandidate ::
  "Browser \<Rightarrow> IceCandidate \<Rightarrow> PeerConnection \<Rightarrow> RTCError + PeerConnection" where
  "pc_addIceCandidate B cand c =
     (if signalingState c = Closed \<or> remoteDescription c = None then Inl InvalidStateError
      else if \<not> acceptsCandidate B cand then Inl OperationError
      else Inr (c\<lparr>addedCandidates := addedCandidates c @ [cand]\<rparr>))"

subsection \<open>The component's state and handlers\<close>

text \<open>
  The state of one mounted \<^verbatim>\<open>P2PCall\<close>: its props, the peer connection, the two refs
  \<^verbatim>\<open>isInitiatorRef\<close> and \<^verbatim>\<open>pendingCandidatesRef\<close>, the timeouts it has set and that
  have not fired yet, what it has emitted on the socket and what it has written with
  \<^verbatim>\<open>console.error\<close>. A handler is \<^verbatim>\<open>async\<close>; it is modelled as running to its end before
  the next event is handled. An exception leaves the \<^verbatim>\<open>try\<close> block with every effect up
  to the failing call in place, and the \<^verbatim>\<open>catch\<close> block logs it.
\<close>

datatype ClientMsg =
    EmitOffer string string SessionDescription
  | EmitAnswer string string SessionDescription
  | EmitIceCandidate string string IceCandidate

datatype Timeout = OfferTimeout | OfferIfStableTimeout

record Peer =
  username :: string
  callRoomId :: string
  pc :: PeerConnection
  isInitiator :: bool
  pendingCandidates :: "IceCandidate list"
  timeouts :: "Timeout list"
  sentMsgs :: "ClientMsg list"
  consoleErrors :: "string list"

definition initialPeer :: "string \<Rightarrow> string \<Rightarrow> Peer" where
  "initialPeer uname rid =
     \<lparr>username = uname, callRoomId = rid, pc = newPeerConnection, isInitiator = False,
      pendingCandidates = [], timeouts = [], sentMsgs = [], consoleErrors = []\<rparr>"

definition logError :: "string \<Rightarrow> Peer \<Rightarrow> Peer" where
  "logError msg p = p\<lparr>consoleErrors := consoleErrors p @ [msg]\<rparr>"

text \<open>
  A \<^verbatim>\<open>try\<close> block is a sequence of awaited steps. A step either returns, with the
  state it has reached (\<open>Inr\<close>), or throws, with the state at the throw (\<open>Inl\<close>); the
  steps after a throw do not run, and the \<^verbatim>\<open>catch\<close> block writes the error to the
  console.
\<close>

fun chain :: "(Peer \<Rightarrow> Peer + Peer) list \<Rightarrow> Peer \<Rightarrow> Peer + Peer" where
  "chain [] p = Inr p"
| "chain (step # steps) p =
     (case step p of
        Inl q \<Rightarrow> Inl q
      | Inr q \<Rightarrow> chain steps q)"

definition tryCatch :: "string \<Rightarrow> (Peer \<Rightarrow> Peer + Peer) list \<Rightarrow> Peer \<Rightarrow> Peer" where
  "tryCatch msg steps p =
     (case chain steps p of
        Inl q \<Rightarrow> logError msg q
      | Inr q \<Rightarrow> q)"

text \<open>A call on the peer connection as a step.\<close>

definition awaitPc ::
  "(PeerConnection \<Rightarrow> RTCError + PeerConnection) \<Rightarrow> Peer \<Rightarrow> Peer + Peer" where
  "awaitPc call p =
     (case call (pc p) of
        Inl e \<Rightarrow> Inl p
      | Inr c \<Rightarrow> Inr (p\<lparr>pc := c\<rparr>))"

text \<open>
  \<^verbatim>\<open>createOffer\<close>: create the offer, set it as local description, emit it.
\<close>

definition sendOffer :: "Browser \<Rightarrow> Peer \<Rightarrow> Peer + Peer" where
  "sendOffer B p =
     (case pc_createOffer B (pc p) of
        Inl e \<Rightarrow> Inl p
      | Inr offer \<Rightarrow>
          (case pc_setLocalDescription offer (pc p) of
             Inl e \<Rightarrow> Inl p
           | Inr c \<Rightarrow>
               Inr (p\<lparr>pc := c,
                      sentMsgs := sentMsgs p @
                        [EmitOffer (callRoomId p) (username p) offer]\<rparr>)))"

definition createOffer :: "Browser \<Rightarrow> Peer \<Rightarrow> Peer" where
  "createOffer B p = tryCatch ''Error creating offer'' [sendOffer B] p"

text \<open>
  The loop that empties \<^verbatim>\<open>pendingCandidatesRef\<close>: it shifts the first candidate out of
  the queue and adds it, until the queue is empty or a call throws. It returns the error
  if there was one, what is left of the queue, and the connection.
\<close>

fun drainPending ::
  "Browser \<Rightarrow> IceCandidate list \<Rightarrow> PeerConnection \<Rightarrow>
     RTCError option \<times> IceCandidate list \<times> PeerConnection" where
  "drainPending B [] c = (None, [], c)"
| "drainPending B (cand # queue) c =
     (case pc_addIceCandidate B cand c of
        Inl e \<Rightarrow> (Some e, queue, c)
      | Inr c1 \<Rightarrow> drainPending B queue c1)"

definition processPending :: "Browser \<Rightarrow> Peer \<Rightarrow> Peer + Peer" where
  "processPending B p =
     (case drainPending B (pendingCandidates p) (pc p) of
        (Some e, queue, c) \<Rightarrow> Inl (p\<lparr>pc := c, pendingCandidates := queue\<rparr>)
      | (None, queue, c) \<Rightarrow> Inr (p\<lparr>pc := c, pendingCandidates := queue\<rparr>))"

text \<open>The end of the offer handler: create the answer, set it, emit it.\<close>

definition sendAnswer :: "Browser \<Rightarrow> Peer \<Rightarrow> Peer + Peer" where
  "sendAnswer B p =
     (case pc_createAnswer B (pc p) of
        Inl e \<Rightarrow> Inl p
      | Inr answer \<Rightarrow>
          (case pc_setLocalDescription answer (pc p) of
             Inl e \<Rightarrow> Inl p
           | Inr c \<Rightarrow>
               Inr (p\<lparr>pc := c,
                      sentMsgs := sentMsgs p @
                        [EmitAnswer (callRoomId p) (username p) answer]\<rparr>)))"

text \<open>The start of the offer handler: the check whether to roll back, and the rollback.\<close>

definition rollbackUnlessStable :: "Peer \<Rightarrow> Peer + Peer" where
  "rollbackUnlessStable p =
     (let isStable =
            (signalingState (pc p) = Stable \<or>
             (signalingState (pc p) = HaveLocalOffer \<and>
              currentRemoteDescription (pc p) \<noteq> None))
      in if \<not> isStable then awaitPc pc_rollback p else Inr p)"

definition onWebrtcOffer :: "Browser \<Rightarrow> string \<Rightarrow> SessionDescription \<Rightarrow> Peer \<Rightarrow> Peer" where
  "onWebrtcOffer B from offer p =
     (if from = username p then p
      else tryCatch ''Error handling offer''
             [rollbackUnlessStable,
              awaitPc (pc_setRemoteDescription B offer),
              processPending B,
              sendAnswer B]
             (p\<lparr>isInitiator := True\<rparr>))"

definition onWebrtcAnswer :: "Browser \<Rightarrow> string \<Rightarrow> SessionDescription \<Rightarrow> Peer \<Rightarrow> Peer" where
  "onWebrtcAnswer B from answer p =
     (if from = username p then p
      else tryCatch ''Error handling answer''
             [awaitPc (pc_setRemoteDescription B answer),
              processPending B]
             p)"

text \<open>
  The candidate handler: build the \<^verbatim>\<open>RTCIceCandidate\<close>, then add it if a remote
  description is set and queue it otherwise.
\<close>

definition addOrQueue :: "Browser \<Rightarrow> IceCandidateInit \<Rightarrow> Peer \<Rightarrow> Peer + Peer" where
  "addOrQueue B init p =
     (case newRTCIceCandidate init of
        Inl e \<Rightarrow> Inl p
      | Inr cand \<Rightarrow>
          (if remoteDescription (pc p) \<noteq> None
           then awaitPc (pc_addIceCandidate B cand) p
           else Inr (p\<lparr>pendingCandidates := pendingCandidates p @ [cand]\<rparr>)))"

definition onWebrtcIceCandidate ::
  "Browser \<Rightarrow> string \<Rightarrow> IceCandidateInit \<Rightarrow> Peer \<Rightarrow> Peer" where
  "onWebrtcIceCandidate B from cand p =
     (if from = username p then p
      else tryCatch ''Error adding ICE candidate'' [addOrQueue B cand] p)"

definition onRoomUpdated :: "string list \<Rightarrow> Peer \<Rightarrow> Peer" where
  "onRoomUpdated members p =
     (if length members = 2 \<and> \<not> isInitiator p
      then p\<lparr>isInitiator := True, timeouts := timeouts p @ [OfferTimeout]\<rparr>
      else p)"

text \<open>
  \<^verbatim>\<open>checkRoomStateAndInitiate\<close> after its \<^verbatim>\<open>fetch\<close> has answered: the argument is the
  participant list of an OK response that has one, and nothing otherwise.
\<close>

definition onRoomStateFetched :: "string list option \<Rightarrow> Peer \<Rightarrow> Peer" where
  "onRoomStateFetched members p =
     (case members of
        None \<Rightarrow> p
      | Some ms \<Rightarrow>
          (if length ms = 2 \<and> \<not> isInitiator p
           then p\<lparr>isInitiator := True, timeouts := timeouts p @ [OfferIfStableTimeout]\<rparr>
           else p))"

definition onTimeout :: "Browser \<Rightarrow> nat \<Rightarrow> Peer \<Rightarrow> Peer" where
  "onTimeout B n p =
     (if n < length (timeouts p)
      then (let p1 = p\<lparr>timeouts := take n (timeouts p) @ drop (Suc n) (timeouts p)\<rparr>
            in case timeouts p ! n of
                 OfferTimeout \<Rightarrow> createOffer B p1
               | OfferIfStableTimeout \<Rightarrow>
                   (if signalingState (pc p1) = Stable then createOffer B p1 else p1))
      else p)"

definition onIceCandidate :: "IceCandidate \<Rightarrow> Peer \<Rightarrow> Peer" where
  "onIceCandidate cand p =
     p\<lparr>sentMsgs := sentMsgs p @ [EmitIceCandidate (callRoomId p) (username p) cand]\<rparr>"

datatype PeerEvent =
    RecvOffer string SessionDescription
  | RecvAnswer string SessionDescription
  | RecvIceCandidate string IceCandidateInit
  | RecvRoomUpdated "string list"
  | RoomStateFetched "string list option"
  | TimeoutFires nat
  | LocalIceCandidate IceCandidate

fun peerStep :: "Browser \<Rightarrow> PeerEvent \<Rightarrow> Peer \<Rightarrow> Peer" where
  "peerStep B (RecvOffer from offer) p = onWebrtcOffer B from offer p"
| "peerStep B (RecvAnswer from answer) p = onWebrtcAnswer B from answer p"
| "peerStep B (RecvIceCandidate from cand) p = onWebrtcIceCandidate B from cand p"
| "peerStep B (RecvRoomUpdated members) p = onRoomUpdated members p"
| "peerStep B (RoomStateFetched members) p = onRoomStateFetched members p"
| "peerStep B (TimeoutFires n) p = onTimeout B n p"
| "peerStep B (LocalIceCandidate cand) p = onIceCandidate cand p"

fun runPeer :: "Browser \<Rightarrow> PeerEvent list \<Rightarrow> Peer \<Rightarrow> Peer" where
  "runPeer B [] p = p"
| "runPeer B (e # es) p = runPeer B es (peerStep B e p)"


fun isOffer :: "ClientMsg \<Rightarrow> bool" where
  "isOffer (EmitOffer r f d) = True"
| "isOffer m = False"

subsection \<open>Relations and invariants of the component\<close>

text \<open>The state a step ends in, whether it returned or threw.\<close>

definition outcome :: "Peer + Peer \<Rightarrow> Peer" where
  "outcome r = (case r of Inl q \<Rightarrow> q | Inr q \<Rightarrow> q)"

text \<open>
  What the message handlers leave alone: the timeouts, the props, the initiator flag and
  the offers emitted so far; and they never bring the connection into
  \<^verbatim>\<open>have-local-offer\<close>.
\<close>

definition calm :: "Peer \<Rightarrow> Peer \<Rightarrow> bool" where
  "calm p q \<longleftrightarrow>
     timeouts q = timeouts p \<and> username q = username p \<and> callRoomId q = callRoomId p \<and>
     isInitiator q = isInitiator p \<and>
     filter isOffer (sentMsgs q) = filter isOffer (sentMsgs p) \<and>
     (signalingState (pc q) = HaveLocalOffer \<longrightarrow> signalingState (pc p) = HaveLocalOffer)"

text \<open>
  At most one timeout is ever pending, only after the initiator flag has been set, and only
  as long as no local offer has been set.
\<close>

definition timerInv :: "Peer \<Rightarrow> bool" where
  "timerInv p \<longleftrightarrow>
     length (timeouts p) \<le> 1 \<and>
     (\<not> isInitiator p \<longrightarrow> timeouts p = []) \<and>
     (\<not> isInitiator p \<or> timeouts p \<noteq> [] \<longrightarrow> signalingState (pc p) \<noteq> HaveLocalOffer)"

text \<open>
  Between two events: the connection is not closed, the queue is empty once a remote
  description is set, and the browser accepts what is queued.
\<close>

definition candInv :: "Browser \<Rightarrow> Peer \<Rightarrow> bool" where
  "candInv B p \<longleftrightarrow>
     signalingState (pc p) \<noteq> Closed \<and>
     (remoteDescription (pc p) \<noteq> None \<longrightarrow> pendingCandidates p = []) \<and>
     (\<forall>cand \<in> set (pendingCandidates p). acceptsCandidate B cand)"

text \<open>Two states hold the same candidates, added and queued taken together, in order.\<close>

definition sameCandidates :: "Peer \<Rightarrow> Peer \<Rightarrow> bool" where
  "sameCandidates p q \<longleftrightarrow>
     addedCandidates (pc q) @ pendingCandidates q = addedCandidates (pc p) @ pendingCandidates p"

text \<open>No local offer is pending.\<close>

definition noLocalOffer :: "Peer \<Rightarrow> bool" where
  "noLocalOffer p \<longleftrightarrow>
     pendingLocalDescription (pc p) = None \<and> signalingState (pc p) \<noteq> HaveLocalOffer"


text \<open>
  The candidates added, those in the queue and the errors logged, counted together; and
  a step that loses at most one of them, and none when it returns.
\<close>

definition accounted :: "Peer \<Rightarrow> nat" where
  "accounted p =
     length (addedCandidates (pc p)) + length (pendingCandidates p) + length (consoleErrors p)"


section \<open>Properties of the room manager\<close>

lemma modeConsistent_updateMode: "modeConsistent (updateMode room)"
  by (simp add: modeConsistent_def updateMode_def)

lemma updateMode_fields [simp]:
  "participants (updateMode room) = participants room"
  "id_room (updateMode room) = id_room room"
  by (simp_all add: updateMode_def)

lemma updateMode_consistent_id: "modeConsistent room \<Longrightarrow> updateMode room = room"
  by (cases "mode room") (auto simp: modeConsistent_def updateMode_def)

lemma wellFormed_joinRoom:
  assumes "wellFormed rooms"
  shows "wellFormed (snd (joinRoom roomId userId rooms))"
  using assms
  by (auto simp: wellFormed_def joinRoom_def createRoom_def Let_def modeConsistent_updateMode
           split: option.splits if_splits)

lemma wellFormed_leaveRoom:
  assumes "wellFormed rooms"
  shows "wellFormed (snd (leaveRoom roomId userId rooms))"
  using assms
  by (auto simp: wellFormed_def leaveRoom_def Let_def modeConsistent_updateMode
           split: option.splits if_splits)

lemma wellFormed_applyOp: "wellFormed rooms \<Longrightarrow> wellFormed (applyOp op rooms)"
  by (cases op) (simp_all add: wellFormed_joinRoom wellFormed_leaveRoom)

lemma wellFormed_runOps: "wellFormed rooms \<Longrightarrow> wellFormed (runOps ops rooms)"
  by (induction ops arbitrary: rooms) (simp_all add: wellFormed_applyOp)

lemma wellFormed_empty: "wellFormed Map.empty"
  by (simp add: wellFormed_def)

lemma wellFormed_reachable: "wellFormed (runOps ops Map.empty)"
  by (rule wellFormed_runOps [OF wellFormed_empty])

lemma joinRoom_member:
  assumes "wellFormed rooms" "rooms roomId = Some room" "userId \<in> set (participants room)"
  shows "joinRoom roomId userId rooms = (room, rooms)"
proof -
  have "modeConsistent room" using assms(1,2) by (auto simp: wellFormed_def)
  then have "updateMode room = room" by (rule updateMode_consistent_id)
  then show ?thesis using assms(2,3) by (simp add: joinRoom_def fun_upd_idem)
qed

lemma joinRoom_result:
  "joinRoom roomId userId rooms = (room, rooms1) \<Longrightarrow>
     rooms1 roomId = Some room \<and> userId \<in> set (participants room)"
  by (auto simp: joinRoom_def createRoom_def Let_def split: option.splits if_splits)

lemma joinRoom_absent:
  "rooms roomId = None \<Longrightarrow>
     joinRoom roomId userId rooms =
       (\<lparr>id_room = roomId, mode = P2P, participants = [userId]\<rparr>,
        rooms(roomId \<mapsto> \<lparr>id_room = roomId, mode = P2P, participants = [userId]\<rparr>))"
  by (simp add: joinRoom_def createRoom_def updateMode_def Let_def)

lemma applyOp_other:
  "(\<forall>u. op \<noteq> Join roomId u) \<Longrightarrow> rooms roomId = None \<Longrightarrow> applyOp op rooms roomId = None"
  by (cases op)
     (auto simp: joinRoom_def createRoom_def leaveRoom_def updateMode_def Let_def
           split: option.splits if_splits)

lemma runOps_absent:
  "(\<forall>u. Join roomId u \<notin> set ops) \<Longrightarrow> rooms roomId = None \<Longrightarrow> runOps ops rooms roomId = None"
proof (induction ops arbitrary: rooms)
  case Nil
  then show ?case by simp
next
  case (Cons op ops)
  have "applyOp op rooms roomId = None"
    using Cons.prems by (intro applyOp_other) auto
  then show ?case using Cons by simp
qed

lemma runOps_snoc: "runOps (ops @ [op]) rooms = applyOp op (runOps ops rooms)"
  by (induction ops arbitrary: rooms) simp_all

lemma filter_neq_distinct:
  "distinct (xs @ u # ys) \<Longrightarrow> filter (\<lambda>i. i \<noteq> u) (xs @ u # ys) = xs @ ys"
  by (induction xs) (auto simp: filter_id_conv)

subsection \<open>The mode follows the number of participants\<close>

text \<open>
  C1. Start from the empty registry and run any sequence of joins and leaves. After each
  operation, that is after every prefix of the sequence, every room in the registry is in
  mode \<^verbatim>\<open>sfu\<close> exactly when it has three or more participants, and in mode \<^verbatim>\<open>p2p\<close>
  exactly when it has two or fewer.
\<close>

theorem mode_follows_count:
  "runOps (take n ops) Map.empty roomId = Some room \<Longrightarrow>
     (mode room = SFU \<longleftrightarrow> 3 \<le> length (participants room)) \<and>
     (mode room = P2P \<longleftrightarrow> length (participants room) \<le> 2)"
  using wellFormed_reachable [of "take n ops"]
  unfolding wellFormed_def modeConsistent_def by blast

theorem mode_follows_count_witness:
  "runOps (take 3 [Join ''R1'' ''a'', Join ''R1'' ''b'', Join ''R1'' ''c'', Leave ''R1'' ''a''])
      Map.empty ''R1''
     = Some \<lparr>id_room = ''R1'', mode = SFU, participants = [''a'', ''b'', ''c'']\<rparr> \<and>
   (mode \<lparr>id_room = ''R1'', mode = SFU, participants = [''a'', ''b'', ''c'']\<rparr> = SFU \<longleftrightarrow>
      3 \<le> length (participants
             \<lparr>id_room = ''R1'', mode = SFU, participants = [''a'', ''b'', ''c'']\<rparr>))"
proof -
  have h: "runOps (take 3 [Join ''R1'' ''a'', Join ''R1'' ''b'', Join ''R1'' ''c'',
                          Leave ''R1'' ''a''])
      Map.empty ''R1''
     = Some \<lparr>id_room = ''R1'', mode = SFU, participants = [''a'', ''b'', ''c'']\<rparr>"
    by (simp add: joinRoom_def createRoom_def updateMode_def Let_def)
  show ?thesis using h mode_follows_count [OF h] by simp
qed

subsection \<open>Joining again\<close>

text \<open>
  C4. In every registry that joins and leaves can produce, joining a room with an identity
  that is already among its participants changes nothing, neither the participant list
  nor the mode nor any other room, and returns the room as it is. Hence joining twice
  with the same identity is the same as joining once, whether or not the identity was
  there before.
\<close>

theorem joinRoom_idempotent:
  assumes "rooms = runOps ops Map.empty"
    and "rooms roomId = Some room"
    and "userId \<in> set (participants room)"
  shows "joinRoom roomId userId rooms = (room, rooms) \<and>
         (\<forall>r u. joinRoom r u (snd (joinRoom r u rooms)) = joinRoom r u rooms)"
proof
  have wf: "wellFormed rooms" using assms(1) by (simp add: wellFormed_reachable)
  show "joinRoom roomId userId rooms = (room, rooms)"
    using joinRoom_member [OF wf assms(2,3)] .
  show "\<forall>r u. joinRoom r u (snd (joinRoom r u rooms)) = joinRoom r u rooms"
  proof (intro allI)
    fix r u
    obtain r1 rooms1 where j: "joinRoom r u rooms = (r1, rooms1)"
      by (cases "joinRoom r u rooms")
    have wf1: "wellFormed rooms1"
      using wellFormed_joinRoom [OF wf, of r u] j by simp
    have "joinRoom r u rooms1 = (r1, rooms1)"
      using joinRoom_member [OF wf1] joinRoom_result [OF j] by blast
    then show "joinRoom r u (snd (joinRoom r u rooms)) = joinRoom r u rooms"
      using j by simp
  qed
qed

theorem joinRoom_idempotent_witness:
  "joinRoom ''R1'' ''a'' (runOps [Join ''R1'' ''a'', Join ''R1'' ''b''] Map.empty)
     = (\<lparr>id_room = ''R1'', mode = P2P, participants = [''a'', ''b'']\<rparr>,
        runOps [Join ''R1'' ''a'', Join ''R1'' ''b''] Map.empty) \<and>
   joinRoom ''R1'' ''c''
       (snd (joinRoom ''R1'' ''c'' (runOps [Join ''R1'' ''a'', Join ''R1'' ''b''] Map.empty)))
     = joinRoom ''R1'' ''c'' (runOps [Join ''R1'' ''a'', Join ''R1'' ''b''] Map.empty)"
proof -
  let ?room = "\<lparr>id_room = ''R1'', mode = P2P, participants = [''a'', ''b'']\<rparr>"
  let ?rooms = "runOps [Join ''R1'' ''a'', Join ''R1'' ''b''] Map.empty"
  have h2: "?rooms ''R1'' = Some ?room"
    by (simp add: joinRoom_def createRoom_def updateMode_def Let_def)
  have h3: "''a'' \<in> set (participants ?room)" by simp
  note t = joinRoom_idempotent [of ?rooms _ "''R1''" ?room "''a''", OF refl h2 h3]
  show ?thesis
    using t [THEN conjunct1] t [THEN conjunct2, THEN spec, THEN spec, of "''R1''" "''c''"]
    by simp
qed

subsection \<open>Leaving\<close>

text \<open>
  C5. When a leave empties the participant list of a room, the room is deleted from the
  registry and the leave returns \<^verbatim>\<open>null\<close>. From then on \<^verbatim>\<open>getRoom\<close> finds nothing
  under that identifier, whatever joins and leaves follow, as long as none of them is a
  join of that room; the first such join creates the room anew, in mode \<^verbatim>\<open>p2p\<close> with the
  joining identity as its only participant.
\<close>

theorem leaveRoom_last_member:
  assumes "rooms roomId = Some room"
    and "filter (\<lambda>i. i \<noteq> userId) (participants room) = []"
  shows "leaveRoom roomId userId rooms = (None, rooms(roomId := None)) \<and>
         (\<forall>ops. (\<forall>u. Join roomId u \<notin> set ops) \<longrightarrow>
            getRoom roomId (runOps ops (snd (leaveRoom roomId userId rooms))) = None \<and>
            (\<forall>u. getRoom roomId
                   (runOps (ops @ [Join roomId u]) (snd (leaveRoom roomId userId rooms)))
                 = Some \<lparr>id_room = roomId, mode = P2P, participants = [u]\<rparr>))"
proof -
  have l: "leaveRoom roomId userId rooms = (None, rooms(roomId := None))"
    using assms by (simp add: leaveRoom_def)
  have "getRoom roomId (runOps ops (rooms(roomId := None))) = None \<and>
        (\<forall>u. getRoom roomId (runOps (ops @ [Join roomId u]) (rooms(roomId := None)))
             = Some \<lparr>id_room = roomId, mode = P2P, participants = [u]\<rparr>)"
    if "\<forall>u. Join roomId u \<notin> set ops" for ops
  proof -
    have a: "runOps ops (rooms(roomId := None)) roomId = None"
      using that by (intro runOps_absent) simp_all
    show ?thesis using a by (simp add: getRoom_def runOps_snoc joinRoom_absent)
  qed
  then show ?thesis using l by simp
qed

theorem leaveRoom_last_member_witness:
  "leaveRoom ''R1'' ''a''
       [''R1'' \<mapsto> \<lparr>id_room = ''R1'', mode = P2P, participants = [''a'']\<rparr>]
     = (None, Map.empty) \<and>
   getRoom ''R1'' (runOps [Leave ''R1'' ''a'', Join ''R2'' ''b'']
       (snd (leaveRoom ''R1'' ''a''
          [''R1'' \<mapsto> \<lparr>id_room = ''R1'', mode = P2P, participants = [''a'']\<rparr>]))) = None \<and>
   getRoom ''R1'' (runOps ([Leave ''R1'' ''a'', Join ''R2'' ''b''] @ [Join ''R1'' ''c''])
       (snd (leaveRoom ''R1'' ''a''
          [''R1'' \<mapsto> \<lparr>id_room = ''R1'', mode = P2P, participants = [''a'']\<rparr>])))
     = Some \<lparr>id_room = ''R1'', mode = P2P, participants = [''c'']\<rparr>"
proof -
  let ?rooms = "[''R1'' \<mapsto> \<lparr>id_room = ''R1'', mode = P2P, participants = [''a'']\<rparr>]"
  have h1: "?rooms ''R1'' = Some \<lparr>id_room = ''R1'', mode = P2P, participants = [''a'']\<rparr>"
    by simp
  have h2: "filter (\<lambda>i. i \<noteq> ''a'')
              (participants \<lparr>id_room = ''R1'', mode = P2P, participants = [''a'']\<rparr>) = []"
    by simp
  have h3: "\<forall>u. Join ''R1'' u \<notin> set [Leave ''R1'' ''a'', Join ''R2'' ''b'']"
    by simp
  note t = leaveRoom_last_member [of ?rooms "''R1''" _ "''a''", OF h1 h2]
  note u = t [THEN conjunct2, THEN spec, THEN mp, OF h3]
  show ?thesis
    using t [THEN conjunct1] u [THEN conjunct1] u [THEN conjunct2, THEN spec, of "''c''"]
    by simp
qed

text \<open>
  C9. A leave of a room that the registry does not hold returns \<^verbatim>\<open>null\<close> and leaves the
  registry as it is. This is the value that a leave returns when it deletes the room, so
  the return value does not tell the two apart.
\<close>

theorem leaveRoom_unknown_room:
  assumes "rooms roomId = None"
  shows "leaveRoom roomId userId rooms = (None, rooms) \<and>
         (\<forall>rooms' room'.
            rooms' roomId = Some room' \<and>
            filter (\<lambda>i. i \<noteq> userId) (participants room') = [] \<longrightarrow>
            fst (leaveRoom roomId userId rooms') = fst (leaveRoom roomId userId rooms))"
  using assms by (simp add: leaveRoom_def)

theorem leaveRoom_unknown_room_witness:
  "leaveRoom ''R9'' ''a''
       [''R1'' \<mapsto> \<lparr>id_room = ''R1'', mode = P2P, participants = [''a'']\<rparr>]
     = (None, [''R1'' \<mapsto> \<lparr>id_room = ''R1'', mode = P2P, participants = [''a'']\<rparr>]) \<and>
   fst (leaveRoom ''R9'' ''a''
       [''R9'' \<mapsto> \<lparr>id_room = ''R9'', mode = P2P, participants = [''a'']\<rparr>])
     = fst (leaveRoom ''R9'' ''a''
       [''R1'' \<mapsto> \<lparr>id_room = ''R1'', mode = P2P, participants = [''a'']\<rparr>])"
proof -
  let ?rooms = "[''R1'' \<mapsto> \<lparr>id_room = ''R1'', mode = P2P, participants = [''a'']\<rparr>]"
  let ?rooms' = "[''R9'' \<mapsto> \<lparr>id_room = ''R9'', mode = P2P, participants = [''a'']\<rparr>]"
  have h: "?rooms ''R9'' = None" by simp
  have h': "?rooms' ''R9'' = Some \<lparr>id_room = ''R9'', mode = P2P, participants = [''a'']\<rparr> \<and>
            filter (\<lambda>i. i \<noteq> ''a'')
              (participants \<lparr>id_room = ''R9'', mode = P2P, participants = [''a'']\<rparr>) = []"
    by simp
  note t = leaveRoom_unknown_room [of ?rooms "''R9''" "''a''", OF h]
  show ?thesis
    using t [THEN conjunct1]
      t [THEN conjunct2, THEN spec, of ?rooms', THEN spec,
         of "\<lparr>id_room = ''R9'', mode = P2P, participants = [''a'']\<rparr>", THEN mp, OF h']
    by simp
qed

text \<open>
  C10. In every registry that joins and leaves can produce, a leave of an identity that
  is among the participants of a room with two or more of them takes exactly that one
  entry out of the list: the participants before and after it stay as they are and in
  their order. The room that is returned and stored differs from the old one in its
  participants and its recomputed mode only, and no other room changes.
\<close>

theorem leaveRoom_frame:
  assumes "rooms = runOps ops Map.empty"
    and "rooms roomId = Some room"
    and "userId \<in> set (participants room)"
    and "2 \<le> length (participants room)"
  shows "\<exists>xs ys room'.
           participants room = xs @ userId # ys \<and>
           userId \<notin> set (xs @ ys) \<and>
           room' = room\<lparr>participants := xs @ ys,
                        mode := (if length (xs @ ys) \<le> 2 then P2P else SFU)\<rparr> \<and>
           leaveRoom roomId userId rooms = (Some room', rooms(roomId \<mapsto> room'))"
proof -
  have wf: "wellFormed rooms" using assms(1) by (simp add: wellFormed_reachable)
  then have d: "distinct (participants room)" using assms(2) by (auto simp: wellFormed_def)
  obtain xs ys where s: "participants room = xs @ userId # ys"
    using assms(3) by (auto simp: in_set_conv_decomp)
  have n: "userId \<notin> set (xs @ ys)" using d s by auto
  have f: "filter (\<lambda>i. i \<noteq> userId) (participants room) = xs @ ys"
    unfolding s using d [unfolded s] by (rule filter_neq_distinct)
  have ne: "xs @ ys \<noteq> []" using assms(4) s by (cases xs; cases ys) auto
  have "leaveRoom roomId userId rooms =
          (Some (room\<lparr>participants := xs @ ys,
                      mode := (if length (xs @ ys) \<le> 2 then P2P else SFU)\<rparr>),
           rooms(roomId \<mapsto> room\<lparr>participants := xs @ ys,
                      mode := (if length (xs @ ys) \<le> 2 then P2P else SFU)\<rparr>))"
    using assms(2) f ne by (simp add: leaveRoom_def updateMode_def Let_def)
  then show ?thesis using s n by blast
qed

theorem leaveRoom_frame_witness:
  "\<exists>xs ys room'.
      [''a'', ''b'', ''c''] = xs @ ''b'' # ys \<and> ''b'' \<notin> set (xs @ ys) \<and>
      room' = \<lparr>id_room = ''R1'', mode = SFU, participants = [''a'', ''b'', ''c'']\<rparr>
                \<lparr>participants := xs @ ys,
                 mode := (if length (xs @ ys) \<le> 2 then P2P else SFU)\<rparr> \<and>
      leaveRoom ''R1'' ''b''
          (runOps [Join ''R1'' ''a'', Join ''R1'' ''b'', Join ''R1'' ''c''] Map.empty)
        = (Some room',
           (runOps [Join ''R1'' ''a'', Join ''R1'' ''b'', Join ''R1'' ''c''] Map.empty)
             (''R1'' \<mapsto> room'))"
proof -
  let ?room = "\<lparr>id_room = ''R1'', mode = SFU, participants = [''a'', ''b'', ''c'']\<rparr>"
  let ?rooms = "runOps [Join ''R1'' ''a'', Join ''R1'' ''b'', Join ''R1'' ''c''] Map.empty"
  have h2: "?rooms ''R1'' = Some ?room"
    by (simp add: joinRoom_def createRoom_def updateMode_def Let_def)
  have h3: "''b'' \<in> set (participants ?room)" by simp
  have h4: "2 \<le> length (participants ?room)" by simp
  show ?thesis
    using leaveRoom_frame [of ?rooms _ "''R1''" ?room "''b''", OF refl h2 h3 h4] by simp
qed

subsection \<open>Joining never fails\<close>

text \<open>
  C7, as the claim has it, does not hold: \<^verbatim>\<open>joinRoom\<close> has no failing path, and with
  the empty string as identity it creates the room with the empty string as its only
  participant.
\<close>

theorem joinRoom_empty_identity_succeeds:
  "joinRoom ''R1'' '''' Map.empty =
     (\<lparr>id_room = ''R1'', mode = P2P, participants = ['''']\<rparr>,
      [''R1'' \<mapsto> \<lparr>id_room = ''R1'', mode = P2P, participants = ['''']\<rparr>])"
  by (simp add: joinRoom_def createRoom_def updateMode_def Let_def)

text \<open>
  C7, amended. For every room identifier and every identity, the empty strings among them,
  \<^verbatim>\<open>joinRoom\<close> returns a room: the one it has stored under the identifier, with
  the identity among its participants, namely the participants the room had before and
  the identity. An empty identity is turned away one layer up:
  \<^verbatim>\<open>POST /api/room\<close> answers 400 to it and leaves the registry alone.
\<close>

theorem joinRoom_total:
  "(\<exists>room. joinRoom roomId userId rooms = (room, rooms(roomId \<mapsto> room)) \<and>
           userId \<in> set (participants room) \<and>
           set (participants room) =
             insert userId (case rooms roomId of None \<Rightarrow> {} | Some r \<Rightarrow> set (participants r))) \<and>
   postApiRoom r (Some '''') rooms = (Status400 ''roomId and userId are required'', rooms)"
  by (auto simp: joinRoom_def createRoom_def updateMode_def Let_def postApiRoom_def
           split: option.splits)

section \<open>Properties of the relay\<close>

lemma onJoinRoom_sockets:
  "sockets (onJoinRoom sid roomId userId S) =
     (sockets S)(sid \<mapsto> \<lparr>data_roomId = Some roomId, data_userId = Some userId\<rparr>)"
  by (simp add: onJoinRoom_def Let_def split: prod.splits)

lemma onJoinRoom_socketRooms:
  "socketRooms (onJoinRoom sid roomId userId S) =
     (socketRooms S)(sid := insert roomId (socketRooms S sid))"
  by (simp add: onJoinRoom_def Let_def split: prod.splits)

lemma onDisconnect_sockets: "sockets (onDisconnect sid S) = (sockets S)(sid := None)"
  by (auto simp: onDisconnect_def Let_def split: option.splits prod.splits)

lemma serverStep_other_socket:
  "sid' \<noteq> sid \<Longrightarrow> sockets (serverStep (sid', ev) S) sid = sockets S sid"
  by (cases ev)
     (simp_all add: onConnection_def onJoinRoom_sockets onDisconnect_sockets
        onWebrtcOfferRelay_def onWebrtcAnswerRelay_def onWebrtcIceCandidateRelay_def)

lemma serverStep_relayed:
  "isRelayed ev \<Longrightarrow> sockets (serverStep (sid, ev) S) = sockets S"
  by (cases ev)
     (simp_all add: onWebrtcOfferRelay_def onWebrtcAnswerRelay_def
        onWebrtcIceCandidateRelay_def)

lemma runServer_binding_kept:
  "(\<forall>e \<in> set evs. fst e = sid \<longrightarrow> isRelayed (snd e)) \<Longrightarrow>
     sockets (runServer evs S) sid = sockets S sid"
proof (induction evs arbitrary: S)
  case Nil
  then show ?case by simp
next
  case (Cons e evs)
  obtain sid' ev where e: "e = (sid', ev)" by (cases e)
  have "sockets (serverStep e S) sid = sockets S sid"
  proof (cases "sid' = sid")
    case True
    then have "isRelayed ev" using Cons.prems e by simp
    then show ?thesis using True e by (simp add: serverStep_relayed del: serverStep.simps)
  next
    case False
    then show ?thesis using e by (simp add: serverStep_other_socket del: serverStep.simps)
  qed
  then show ?case using Cons by simp
qed

subsection \<open>What is bound to a connection\<close>

text \<open>
  C8, as the claim has it, does not hold: the join handler assigns
  \<^verbatim>\<open>socket.data.roomId\<close> and \<^verbatim>\<open>socket.data.userId\<close> whenever it runs. A connection
  that has joined room \<^verbatim>\<open>R1\<close> as \<^verbatim>\<open>a\<close> and then sends a second join, for room
  \<^verbatim>\<open>R2\<close> as \<^verbatim>\<open>b\<close>, is bound to \<^verbatim>\<open>R2\<close> and \<^verbatim>\<open>b\<close> afterwards.
\<close>

theorem join_rebinds_connection:
  "sockets (runServer [(''s1'', Connection), (''s1'', JoinRoomMsg ''R1'' ''a'')] initialServer)
       ''s1''
     = Some \<lparr>data_roomId = Some ''R1'', data_userId = Some ''a''\<rparr> \<and>
   sockets (runServer [(''s1'', Connection), (''s1'', JoinRoomMsg ''R1'' ''a''),
                       (''s1'', JoinRoomMsg ''R2'' ''b'')] initialServer) ''s1''
     = Some \<lparr>data_roomId = Some ''R2'', data_userId = Some ''b''\<rparr>"
  by (simp add: initialServer_def onConnection_def onJoinRoom_sockets)

text \<open>
  C8, amended. On a connected socket every join sets the room and the identity bound to
  the connection to its own arguments, whatever was bound before. Nothing else changes
  them while the connection lasts: they stay as they are over every sequence of events
  in which this connection sends only offers, answers and candidates, whatever the other
  connections do.
\<close>

theorem binding_set_by_join_only:
  assumes "sockets S sid = Some d"
  shows "sockets (serverStep (sid, JoinRoomMsg roomId userId) S) sid
           = Some \<lparr>data_roomId = Some roomId, data_userId = Some userId\<rparr> \<and>
         (\<forall>evs. (\<forall>e \<in> set evs. fst e = sid \<longrightarrow> isRelayed (snd e)) \<longrightarrow>
            sockets (runServer evs S) sid = Some d)"
  using assms by (simp add: onJoinRoom_sockets runServer_binding_kept)

theorem binding_set_by_join_only_witness:
  "sockets (serverStep (''s1'', JoinRoomMsg ''R2'' ''b'')
       (runServer [(''s1'', Connection), (''s1'', JoinRoomMsg ''R1'' ''a'')] initialServer)) ''s1''
     = Some \<lparr>data_roomId = Some ''R2'', data_userId = Some ''b''\<rparr> \<and>
   sockets (runServer [(''s1'', WebrtcOfferMsg ''R2'' ''z'' ''sdp''), (''s2'', Connection),
                       (''s2'', JoinRoomMsg ''R1'' ''c''), (''s2'', Disconnect)]
       (runServer [(''s1'', Connection), (''s1'', JoinRoomMsg ''R1'' ''a'')] initialServer)) ''s1''
     = Some \<lparr>data_roomId = Some ''R1'', data_userId = Some ''a''\<rparr>"
proof -
  let ?S = "runServer [(''s1'', Connection), (''s1'', JoinRoomMsg ''R1'' ''a'')] initialServer"
  let ?d = "\<lparr>data_roomId = Some ''R1'', data_userId = Some ''a''\<rparr>"
  have h: "sockets ?S ''s1'' = Some ?d"
    by (simp add: initialServer_def onConnection_def onJoinRoom_sockets)
  have k: "\<forall>e \<in> set [(''s1'', WebrtcOfferMsg ''R2'' ''z'' ''sdp''), (''s2'', Connection),
                       (''s2'', JoinRoomMsg ''R1'' ''c''), (''s2'', Disconnect)].
             fst e = ''s1'' \<longrightarrow> isRelayed (snd e)"
    by simp
  note t = binding_set_by_join_only [of ?S "''s1''" ?d "''R2''" "''b''", OF h]
  show ?thesis
    using t [THEN conjunct1] t [THEN conjunct2, THEN spec, THEN mp, OF k] by simp
qed

subsection \<open>Events of a join\<close>

text \<open>
  C6. A join on a connected socket adds to the server's emissions, in this order: a
  \<^verbatim>\<open>mode-changed\<close> event with the old mode, the new mode and the new participants,
  if the room existed before the join with a mode other than the one it has after it,
  and nothing otherwise (so not for a room that the join creates, and not when the mode
  stays); then one \<^verbatim>\<open>room-updated\<close> event with the new mode and participants. Both
  are addressed to the whole room, and the joining connection is among its recipients.
\<close>

theorem join_mode_changed:
  assumes "sockets S sid \<noteq> None"
  shows "\<exists>room.
           getRoom roomId (registry (serverStep (sid, JoinRoomMsg roomId userId) S)) = Some room \<and>
           emitted (serverStep (sid, JoinRoomMsg roomId userId) S) =
             emitted S @
             (case getRoom roomId (registry S) of
                None \<Rightarrow> []
              | Some before \<Rightarrow>
                  (if mode before \<noteq> mode room
                   then [(ToRoom roomId,
                          ModeChanged roomId (mode before) (mode room) (participants room))]
                   else [])) @
             [(ToRoom roomId, RoomUpdated roomId (mode room) (participants room))] \<and>
           sid \<in> recipients (ToRoom roomId) (serverStep (sid, JoinRoomMsg roomId userId) S)"
proof -
  obtain room rooms1 where j: "joinRoom roomId userId (registry S) = (room, rooms1)"
    by (cases "joinRoom roomId userId (registry S)")
  have r: "rooms1 roomId = Some room" using joinRoom_result [OF j] by simp
  have "getRoom roomId (registry (onJoinRoom sid roomId userId S)) = Some room"
    using j r by (simp add: onJoinRoom_def Let_def getRoom_def)
  moreover have "emitted (onJoinRoom sid roomId userId S) =
             emitted S @
             (case getRoom roomId (registry S) of
                None \<Rightarrow> []
              | Some before \<Rightarrow>
                  (if mode before \<noteq> mode room
                   then [(ToRoom roomId,
                          ModeChanged roomId (mode before) (mode room) (participants room))]
                   else [])) @
             [(ToRoom roomId, RoomUpdated roomId (mode room) (participants room))]"
    using j by (simp add: onJoinRoom_def Let_def getRoom_def split: option.splits)
  moreover have "sid \<in> recipients (ToRoom roomId) (onJoinRoom sid roomId userId S)"
    by (simp add: recipients_def onJoinRoom_sockets onJoinRoom_socketRooms)
  ultimately show ?thesis using assms by auto
qed


theorem join_mode_changed_witness:
  "sockets (runServer [(''s1'', Connection), (''s1'', JoinRoomMsg ''R1'' ''a''),
                       (''s2'', Connection), (''s2'', JoinRoomMsg ''R1'' ''b''),
                       (''s3'', Connection)] initialServer) ''s3'' \<noteq> None \<and>
   emitted (serverStep (''s3'', JoinRoomMsg ''R1'' ''c'')
      (runServer [(''s1'', Connection), (''s1'', JoinRoomMsg ''R1'' ''a''),
                  (''s2'', Connection), (''s2'', JoinRoomMsg ''R1'' ''b''),
                  (''s3'', Connection)] initialServer))
     = [(ToRoom ''R1'', RoomUpdated ''R1'' P2P [''a'']),
        (ToRoom ''R1'', RoomUpdated ''R1'' P2P [''a'', ''b'']),
        (ToRoom ''R1'', ModeChanged ''R1'' P2P SFU [''a'', ''b'', ''c'']),
        (ToRoom ''R1'', RoomUpdated ''R1'' SFU [''a'', ''b'', ''c''])]"
proof -
  let ?S = "runServer [(''s1'', Connection), (''s1'', JoinRoomMsg ''R1'' ''a''),
                       (''s2'', Connection), (''s2'', JoinRoomMsg ''R1'' ''b''),
                       (''s3'', Connection)] initialServer"
  have h: "sockets ?S ''s3'' \<noteq> None"
    by (simp add: initialServer_def onConnection_def onJoinRoom_sockets)
  have before: "getRoom ''R1'' (registry ?S)
                  = Some \<lparr>id_room = ''R1'', mode = P2P, participants = [''a'', ''b'']\<rparr>"
    by (simp add: initialServer_def onConnection_def onJoinRoom_def Let_def getRoom_def
          joinRoom_def createRoom_def updateMode_def)
  have log: "emitted ?S = [(ToRoom ''R1'', RoomUpdated ''R1'' P2P [''a'']),
                           (ToRoom ''R1'', RoomUpdated ''R1'' P2P [''a'', ''b''])]"
    by (simp add: initialServer_def onConnection_def onJoinRoom_def Let_def getRoom_def
          joinRoom_def createRoom_def updateMode_def)
  have after: "getRoom ''R1'' (registry (serverStep (''s3'', JoinRoomMsg ''R1'' ''c'') ?S))
                 = Some \<lparr>id_room = ''R1'', mode = SFU, participants = [''a'', ''b'', ''c'']\<rparr>"
    by (simp add: initialServer_def onConnection_def onJoinRoom_def Let_def getRoom_def
          joinRoom_def createRoom_def updateMode_def)
  obtain room where
    a: "getRoom ''R1'' (registry (serverStep (''s3'', JoinRoomMsg ''R1'' ''c'') ?S)) = Some room"
    and b: "emitted (serverStep (''s3'', JoinRoomMsg ''R1'' ''c'') ?S) =
             emitted ?S @
             (case getRoom ''R1'' (registry ?S) of
                None \<Rightarrow> []
              | Some before \<Rightarrow>
                  (if mode before \<noteq> mode room
                   then [(ToRoom ''R1'',
                          ModeChanged ''R1'' (mode before) (mode room) (participants room))]
                   else [])) @
             [(ToRoom ''R1'', RoomUpdated ''R1'' (mode room) (participants room))]"
    using join_mode_changed [of ?S "''s3''" "''R1''" "''c''", OF h] by blast
  have "room = \<lparr>id_room = ''R1'', mode = SFU, participants = [''a'', ''b'', ''c'']\<rparr>"
    using a after by simp
  then show ?thesis using h b before log by simp
qed

section \<open>Properties of the negotiating peer\<close>

subsection \<open>What the handlers leave alone\<close>

lemma outcome_simps [simp]: "outcome (Inl q) = q" "outcome (Inr q) = q"
  by (simp_all add: outcome_def)

lemma chain_rel:
  assumes "\<And>p. R p p"
    and "\<And>p q r. R p q \<Longrightarrow> R q r \<Longrightarrow> R p r"
    and "\<And>step p. step \<in> set steps \<Longrightarrow> R p (outcome (step p))"
  shows "R p (outcome (chain steps p))"
  using assms(3)
proof (induction steps arbitrary: p)
  case Nil
  show ?case by (simp add: assms(1))
next
  case (Cons step steps)
  have s: "R p (outcome (step p))" using Cons.prems by simp
  show ?case
  proof (cases "step p")
    case (Inl q)
    then show ?thesis using s by simp
  next
    case (Inr q)
    have "R q (outcome (chain steps q))" using Cons.prems by (intro Cons.IH) simp
    then show ?thesis using s Inr assms(2) by auto
  qed
qed

lemma tryCatch_rel:
  assumes "\<And>p. R p p"
    and "\<And>p q r. R p q \<Longrightarrow> R q r \<Longrightarrow> R p r"
    and "\<And>step p. step \<in> set steps \<Longrightarrow> R p (outcome (step p))"
    and "\<And>p. R p (logError msg p)"
  shows "R p (tryCatch msg steps p)"
proof -
  have c: "R p (outcome (chain steps p))"
    using assms(1,2,3) by (rule chain_rel)
  show ?thesis
  proof (cases "chain steps p")
    case (Inl q)
    then show ?thesis using c assms(2,4) by (auto simp: tryCatch_def)
  next
    case (Inr q)
    then show ?thesis using c by (simp add: tryCatch_def)
  qed
qed

lemma calm_refl: "calm p p"
  by (simp add: calm_def)

lemma calm_trans: "calm p q \<Longrightarrow> calm q r \<Longrightarrow> calm p r"
  by (simp add: calm_def)

lemma calm_logError: "calm p (logError msg p)"
  by (simp add: calm_def logError_def)

lemma remoteDescription_addedCandidates [simp]:
  "remoteDescription (c\<lparr>addedCandidates := xs\<rparr>) = remoteDescription c"
  by (cases "pendingRemoteDescription c") (simp_all add: remoteDescription_def)

lemma drainPending_frame:
  "drainPending B queue c = (e, rest, c1) \<Longrightarrow>
     c1 = c\<lparr>addedCandidates := addedCandidates c1\<rparr>"
proof (induction queue arbitrary: c)
  case Nil
  then show ?case by simp
next
  case (Cons cand queue)
  show ?case
  proof (cases "pc_addIceCandidate B cand c")
    case (Inl err)
    then show ?thesis using Cons.prems by simp
  next
    case (Inr c2)
    then have c2: "c2 = c\<lparr>addedCandidates := addedCandidates c @ [cand]\<rparr>"
      by (auto simp: pc_addIceCandidate_def split: if_splits)
    have "c1 = c2\<lparr>addedCandidates := addedCandidates c1\<rparr>"
      using Cons.IH [of c2] Cons.prems Inr by simp
    then show ?thesis using c2 by simp
  qed
qed

lemma drainPending_signalingState:
  assumes "drainPending B queue c = (e, rest, c1)"
  shows "signalingState c1 = signalingState c"
  by (subst drainPending_frame [OF assms]) simp

lemma drainPending_accepted:
  "\<forall>cand \<in> set queue. acceptsCandidate B cand \<Longrightarrow> signalingState c \<noteq> Closed \<Longrightarrow>
   remoteDescription c \<noteq> None \<Longrightarrow>
     drainPending B queue c = (None, [], c\<lparr>addedCandidates := addedCandidates c @ queue\<rparr>)"
proof (induction queue arbitrary: c)
  case Nil
  then show ?case by simp
next
  case (Cons cand queue)
  let ?c2 = "c\<lparr>addedCandidates := addedCandidates c @ [cand]\<rparr>"
  have a: "pc_addIceCandidate B cand c = Inr ?c2"
    using Cons.prems by (simp add: pc_addIceCandidate_def)
  have "drainPending B queue ?c2 =
          (None, [], ?c2\<lparr>addedCandidates := addedCandidates ?c2 @ queue\<rparr>)"
    using Cons.prems by (intro Cons.IH) simp_all
  then show ?case using a by simp
qed

lemma calm_rollbackUnlessStable: "calm p (outcome (rollbackUnlessStable p))"
  by (cases "signalingState (pc p)")
     (simp_all add: rollbackUnlessStable_def awaitPc_def pc_rollback_def calm_def)

lemma calm_setRemoteDescription:
  "calm p (outcome (awaitPc (pc_setRemoteDescription B d) p))"
  by (cases "sdpType d")
     (simp_all add: awaitPc_def pc_setRemoteDescription_def calm_def)

lemma calm_processPending: "calm p (outcome (processPending B p))"
proof -
  obtain e rest c1 where d: "drainPending B (pendingCandidates p) (pc p) = (e, rest, c1)"
    by (cases "drainPending B (pendingCandidates p) (pc p)")
  have "signalingState c1 = signalingState (pc p)"
    using d by (rule drainPending_signalingState)
  then show ?thesis using d by (cases e) (simp_all add: processPending_def calm_def)
qed

lemma calm_sendAnswer: "calm p (outcome (sendAnswer B p))"
  by (simp add: sendAnswer_def pc_createAnswer_def pc_setLocalDescription_def calm_def)

lemma calm_addOrQueue: "calm p (outcome (addOrQueue B cand p))"
  by (simp add: addOrQueue_def newRTCIceCandidate_def awaitPc_def pc_addIceCandidate_def
        calm_def)

lemma calm_tryCatch:
  assumes "\<And>step p. step \<in> set steps \<Longrightarrow> calm p (outcome (step p))"
  shows "calm p (tryCatch msg steps p)"
proof (rule tryCatch_rel [where R = calm])
  show "calm p p" for p by (rule calm_refl)
  show "calm p q \<Longrightarrow> calm q r \<Longrightarrow> calm p r" for p q r by (rule calm_trans)
  show "step \<in> set steps \<Longrightarrow> calm p (outcome (step p))" for step p by (rule assms)
  show "calm p (logError msg p)" for p by (rule calm_logError)
qed

lemma calm_onWebrtcOffer:
  assumes "from \<noteq> username p"
  shows "calm (p\<lparr>isInitiator := True\<rparr>) (onWebrtcOffer B from offer p)"
proof -
  have "calm q (tryCatch ''Error handling offer''
             [rollbackUnlessStable, awaitPc (pc_setRemoteDescription B offer),
              processPending B, sendAnswer B] q)" for q
  proof (rule calm_tryCatch)
    fix step p
    assume "step \<in> set [rollbackUnlessStable, awaitPc (pc_setRemoteDescription B offer),
              processPending B, sendAnswer B]"
    then consider "step = rollbackUnlessStable"
      | "step = awaitPc (pc_setRemoteDescription B offer)"
      | "step = processPending B" | "step = sendAnswer B"
      by auto
    then show "calm p (outcome (step p))"
      by cases
         (simp_all only: calm_rollbackUnlessStable calm_setRemoteDescription
            calm_processPending calm_sendAnswer)
  qed
  then show ?thesis using assms by (simp add: onWebrtcOffer_def)
qed

lemma calm_onWebrtcAnswer: "calm p (onWebrtcAnswer B from answer p)"
proof -
  have "calm q (tryCatch ''Error handling answer''
             [awaitPc (pc_setRemoteDescription B answer), processPending B] q)" for q
  proof (rule calm_tryCatch)
    fix step p
    assume "step \<in> set [awaitPc (pc_setRemoteDescription B answer), processPending B]"
    then consider "step = awaitPc (pc_setRemoteDescription B answer)"
      | "step = processPending B"
      by auto
    then show "calm p (outcome (step p))"
      by cases (simp_all only: calm_setRemoteDescription calm_processPending)
  qed
  then show ?thesis by (simp add: onWebrtcAnswer_def calm_refl)
qed

lemma calm_onWebrtcIceCandidate: "calm p (onWebrtcIceCandidate B from cand p)"
proof -
  have "calm q (tryCatch ''Error adding ICE candidate'' [addOrQueue B cand] q)" for q
    by (rule calm_tryCatch) (simp add: calm_addOrQueue)
  then show ?thesis by (simp add: onWebrtcIceCandidate_def calm_refl)
qed


lemma createOffer_frame:
  "timeouts (createOffer B p) = timeouts p \<and> isInitiator (createOffer B p) = isInitiator p \<and>
   username (createOffer B p) = username p \<and> callRoomId (createOffer B p) = callRoomId p"
  by (simp add: createOffer_def tryCatch_def sendOffer_def pc_createOffer_def
        pc_setLocalDescription_def logError_def)

lemma timerInv_initialPeer: "timerInv (initialPeer uname rid)"
  by (simp add: timerInv_def initialPeer_def newPeerConnection_def)

lemma timerInv_calm: "timerInv p \<Longrightarrow> calm p q \<Longrightarrow> timerInv q"
  by (auto simp: timerInv_def calm_def)

lemma timerInv_peerStep: "timerInv p \<Longrightarrow> timerInv (peerStep B ev p)"
proof (cases ev)
  case (RecvOffer src offer)
  assume inv: "timerInv p"
  show ?thesis
  proof (cases "src = username p")
    case True
    then show ?thesis using inv RecvOffer by (simp add: onWebrtcOffer_def)
  next
    case False
    have "timerInv (p\<lparr>isInitiator := True\<rparr>)" using inv by (auto simp: timerInv_def)
    then show ?thesis
      using calm_onWebrtcOffer [OF False] RecvOffer by (auto intro: timerInv_calm)
  qed
next
  case (RecvAnswer src answer)
  assume "timerInv p"
  then show ?thesis using calm_onWebrtcAnswer RecvAnswer by (auto intro: timerInv_calm)
next
  case (RecvIceCandidate src cand)
  assume "timerInv p"
  then show ?thesis
    using calm_onWebrtcIceCandidate RecvIceCandidate by (auto intro: timerInv_calm)
next
  case (RecvRoomUpdated members)
  assume "timerInv p"
  then show ?thesis using RecvRoomUpdated by (auto simp: timerInv_def onRoomUpdated_def)
next
  case (RoomStateFetched members)
  assume "timerInv p"
  then show ?thesis
    using RoomStateFetched by (auto simp: timerInv_def onRoomStateFetched_def split: option.splits)
next
  case (TimeoutFires n)
  assume inv: "timerInv p"
  show ?thesis
  proof (cases "n < length (timeouts p)")
    case False
    then show ?thesis using inv TimeoutFires by (simp add: onTimeout_def)
  next
    case True
    then have n: "n = 0" and l: "length (timeouts p) = 1" and i: "isInitiator p"
      using inv by (auto simp: timerInv_def)
    have p1: "p\<lparr>timeouts := take n (timeouts p) @ drop (Suc n) (timeouts p)\<rparr>
                = p\<lparr>timeouts := []\<rparr>"
      using n l by simp
    have "timerInv (p\<lparr>timeouts := []\<rparr>)" using i by (simp add: timerInv_def)
    moreover have "timerInv (createOffer B (p\<lparr>timeouts := []\<rparr>))"
      using i createOffer_frame [of B "p\<lparr>timeouts := []\<rparr>"] by (simp add: timerInv_def)
    ultimately show ?thesis
      using TimeoutFires True
      by (simp add: onTimeout_def Let_def p1 split: Timeout.splits)
  qed
next
  case (LocalIceCandidate cand)
  assume "timerInv p"
  then show ?thesis using LocalIceCandidate by (simp add: timerInv_def onIceCandidate_def)
qed

lemma timerInv_runPeer: "timerInv p \<Longrightarrow> timerInv (runPeer B evs p)"
  by (induction evs arbitrary: p) (simp_all add: timerInv_peerStep)

lemma no_offer_peerStep:
  assumes "isInitiator p" and "timeouts p = []"
  shows "isInitiator (peerStep B ev p) \<and> timeouts (peerStep B ev p) = [] \<and>
         filter isOffer (sentMsgs (peerStep B ev p)) = filter isOffer (sentMsgs p)"
proof (cases ev)
  case (RecvOffer src offer)
  show ?thesis
  proof (cases "src = username p")
    case True
    then show ?thesis using assms RecvOffer by (simp add: onWebrtcOffer_def)
  next
    case False
    then show ?thesis
      using calm_onWebrtcOffer [OF False, of B offer] assms RecvOffer by (simp add: calm_def)
  qed
next
  case (RecvAnswer src answer)
  then show ?thesis using calm_onWebrtcAnswer [of p B src answer] assms by (simp add: calm_def)
next
  case (RecvIceCandidate src cand)
  then show ?thesis
    using calm_onWebrtcIceCandidate [of p B src cand] assms by (simp add: calm_def)
next
  case (RecvRoomUpdated members)
  then show ?thesis using assms by (simp add: onRoomUpdated_def)
next
  case (RoomStateFetched members)
  then show ?thesis using assms by (simp add: onRoomStateFetched_def split: option.splits)
next
  case (TimeoutFires n)
  then show ?thesis using assms by (simp add: onTimeout_def)
next
  case (LocalIceCandidate cand)
  then show ?thesis using assms by (simp add: onIceCandidate_def)
qed

lemma no_offer_runPeer:
  "isInitiator p \<Longrightarrow> timeouts p = [] \<Longrightarrow>
     filter isOffer (sentMsgs (runPeer B evs p)) = filter isOffer (sentMsgs p)"
proof (induction evs arbitrary: p)
  case Nil
  then show ?case by simp
next
  case (Cons ev evs)
  note s = no_offer_peerStep [OF Cons.prems, of B ev]
  have "filter isOffer (sentMsgs (runPeer B evs (peerStep B ev p)))
          = filter isOffer (sentMsgs (peerStep B ev p))"
    using s by (intro Cons.IH) simp_all
  then show ?case using s by simp
qed

lemma glare_step:
  assumes "signalingState (pc p) = HaveLocalOffer"
    and "currentRemoteDescription (pc p) = None"
    and "from \<noteq> username p"
    and "sdpType offer = OfferType"
    and "acceptsDescription B offer"
    and "\<forall>cand \<in> set (pendingCandidates p). acceptsCandidate B cand"
  shows "\<exists>answer.
           sdpType answer = AnswerType \<and>
           onWebrtcOffer B from offer p =
             p\<lparr>isInitiator := True,
               pc := (pc p)\<lparr>signalingState := Stable,
                             pendingLocalDescription := None,
                             currentLocalDescription := Some answer,
                             pendingRemoteDescription := None,
                             currentRemoteDescription := Some offer,
                             addedCandidates := addedCandidates (pc p) @ pendingCandidates p\<rparr>,
               pendingCandidates := [],
               sentMsgs := sentMsgs p @ [EmitAnswer (callRoomId p) (username p) answer]\<rparr>"
proof -
  let ?p0 = "p\<lparr>isInitiator := True\<rparr>"
  let ?c1 = "(pc p)\<lparr>pendingLocalDescription := None, signalingState := Stable\<rparr>"
  let ?c2 = "?c1\<lparr>pendingRemoteDescription := Some offer, signalingState := HaveRemoteOffer\<rparr>"
  let ?c3 = "?c2\<lparr>addedCandidates := addedCandidates ?c2 @ pendingCandidates p\<rparr>"
  let ?answer = "\<lparr>sdpType = AnswerType, sdp = answerSdp B ?c3\<rparr>"
  have s1: "rollbackUnlessStable ?p0 = Inr (?p0\<lparr>pc := ?c1\<rparr>)"
    using assms(1,2) by (simp add: rollbackUnlessStable_def awaitPc_def pc_rollback_def)
  have s2: "awaitPc (pc_setRemoteDescription B offer) (?p0\<lparr>pc := ?c1\<rparr>) = Inr (?p0\<lparr>pc := ?c2\<rparr>)"
    using assms(4,5) by (simp add: awaitPc_def pc_setRemoteDescription_def)
  have d: "drainPending B (pendingCandidates p) ?c2 = (None, [], ?c3)"
    using assms(6) by (intro drainPending_accepted) (simp_all add: remoteDescription_def)
  have s3: "processPending B (?p0\<lparr>pc := ?c2\<rparr>) = Inr (?p0\<lparr>pc := ?c3, pendingCandidates := []\<rparr>)"
    using d by (simp add: processPending_def)
  have s4: "sendAnswer B (?p0\<lparr>pc := ?c3, pendingCandidates := []\<rparr>) =
              Inr (?p0\<lparr>pc := ?c3\<lparr>currentLocalDescription := Some ?answer,
                                   currentRemoteDescription := Some offer,
                                   pendingLocalDescription := None,
                                   pendingRemoteDescription := None,
                                   signalingState := Stable\<rparr>,
                        pendingCandidates := [],
                        sentMsgs := sentMsgs p @
                          [EmitAnswer (callRoomId p) (username p) ?answer]\<rparr>)"
    by (simp add: sendAnswer_def pc_createAnswer_def pc_setLocalDescription_def)
  have "onWebrtcOffer B from offer p =
          ?p0\<lparr>pc := ?c3\<lparr>currentLocalDescription := Some ?answer,
                                   currentRemoteDescription := Some offer,
                                   pendingLocalDescription := None,
                                   pendingRemoteDescription := None,
                                   signalingState := Stable\<rparr>,
                        pendingCandidates := [],
                        sentMsgs := sentMsgs p @
                          [EmitAnswer (callRoomId p) (username p) ?answer]\<rparr>"
    using assms(3) s1 s2 s3 s4 by (simp add: onWebrtcOffer_def tryCatch_def)
  then show ?thesis
    by (intro exI [of _ ?answer]) simp
qed


lemma props_peerStep:
  "username (peerStep B ev p) = username p \<and> callRoomId (peerStep B ev p) = callRoomId p"
proof (cases ev)
  case (RecvOffer src offer)
  show ?thesis
  proof (cases "src = username p")
    case True
    then show ?thesis using RecvOffer by (simp add: onWebrtcOffer_def)
  next
    case False
    then show ?thesis
      using calm_onWebrtcOffer [OF False, of B offer] RecvOffer by (simp add: calm_def)
  qed
next
  case (RecvAnswer src answer)
  then show ?thesis using calm_onWebrtcAnswer [of p B src answer] by (simp add: calm_def)
next
  case (RecvIceCandidate src cand)
  then show ?thesis using calm_onWebrtcIceCandidate [of p B src cand] by (simp add: calm_def)
next
  case (RecvRoomUpdated members)
  then show ?thesis by (simp add: onRoomUpdated_def)
next
  case (RoomStateFetched members)
  then show ?thesis by (simp add: onRoomStateFetched_def split: option.splits)
next
  case (TimeoutFires n)
  then show ?thesis
    using createOffer_frame
    by (simp add: onTimeout_def Let_def split: Timeout.splits)
next
  case (LocalIceCandidate cand)
  then show ?thesis by (simp add: onIceCandidate_def)
qed

lemma props_runPeer:
  "username (runPeer B evs p) = username p \<and> callRoomId (runPeer B evs p) = callRoomId p"
  by (induction evs arbitrary: p) (simp_all add: props_peerStep)

subsection \<open>Glare\<close>

lemma noLocalOffer_logError [simp]: "noLocalOffer (logError msg p) = noLocalOffer p"
  by (simp add: noLocalOffer_def logError_def)

lemma noLocalOffer_setRemoteDescription:
  "noLocalOffer p \<Longrightarrow> noLocalOffer (outcome (awaitPc (pc_setRemoteDescription B d) p))"
  by (cases "sdpType d")
     (simp_all add: awaitPc_def pc_setRemoteDescription_def noLocalOffer_def)

lemma noLocalOffer_processPending:
  assumes "noLocalOffer p"
  shows "noLocalOffer (outcome (processPending B p))"
proof -
  obtain e rest c1 where d: "drainPending B (pendingCandidates p) (pc p) = (e, rest, c1)"
    by (cases "drainPending B (pendingCandidates p) (pc p)")
  have a: "signalingState c1 = signalingState (pc p)"
    using d by (rule drainPending_signalingState)
  have b: "pendingLocalDescription c1 = pendingLocalDescription (pc p)"
    by (subst drainPending_frame [OF d]) simp
  show ?thesis
    using assms d a b by (cases e) (simp_all add: processPending_def noLocalOffer_def)
qed

lemma noLocalOffer_sendAnswer:
  "noLocalOffer p \<Longrightarrow> noLocalOffer (outcome (sendAnswer B p))"
  by (simp add: sendAnswer_def pc_createAnswer_def pc_setLocalDescription_def
        noLocalOffer_def)

lemma noLocalOffer_rest:
  assumes "noLocalOffer p"
  shows "noLocalOffer
           (tryCatch msg
              [awaitPc (pc_setRemoteDescription B d), processPending B, sendAnswer B] p)"
proof -
  have "noLocalOffer p \<longrightarrow>
        noLocalOffer
           (tryCatch msg
              [awaitPc (pc_setRemoteDescription B d), processPending B, sendAnswer B] p)"
  proof (rule tryCatch_rel [where R = "\<lambda>p q. noLocalOffer p \<longrightarrow> noLocalOffer q"])
    fix step p
    assume "step \<in> set [awaitPc (pc_setRemoteDescription B d), processPending B,
                          sendAnswer B]"
    then consider "step = awaitPc (pc_setRemoteDescription B d)"
      | "step = processPending B" | "step = sendAnswer B"
      by auto
    then show "noLocalOffer p \<longrightarrow> noLocalOffer (outcome (step p))"
      by cases
         (simp_all add: noLocalOffer_setRemoteDescription noLocalOffer_processPending
            noLocalOffer_sendAnswer)
  qed simp_all
  then show ?thesis using assms by simp
qed

lemma glare_rolls_back:
  assumes "signalingState (pc p) = HaveLocalOffer"
    and "currentRemoteDescription (pc p) = None"
    and "src \<noteq> username p"
  shows "noLocalOffer (onWebrtcOffer B src offer p)"
proof -
  let ?p0 = "p\<lparr>isInitiator := True\<rparr>"
  let ?p1 = "?p0\<lparr>pc := (pc p)\<lparr>pendingLocalDescription := None, signalingState := Stable\<rparr>\<rparr>"
  let ?rest = "[awaitPc (pc_setRemoteDescription B offer), processPending B, sendAnswer B]"
  have "rollbackUnlessStable ?p0 = Inr ?p1"
    using assms(1,2) by (simp add: rollbackUnlessStable_def awaitPc_def pc_rollback_def)
  then have "onWebrtcOffer B src offer p = tryCatch ''Error handling offer'' ?rest ?p1"
    using assms(3) by (simp add: onWebrtcOffer_def tryCatch_def)
  moreover have "noLocalOffer ?p1" by (simp add: noLocalOffer_def)
  ultimately show ?thesis by (simp add: noLocalOffer_rest)
qed

text \<open>
  C2, as the claim has it, does not hold: the answer depends on the browser. The peer
  \<^verbatim>\<open>alice\<close> has sent its offer and has queued a candidate from \<^verbatim>\<open>bob\<close>; the browser
  rejects this candidate. When the offer from \<^verbatim>\<open>bob\<close> arrives, the handler rolls back
  and sets the remote description, the loop over the queue throws, and the handler ends
  in its \<^verbatim>\<open>catch\<close> block: the connection is in \<^verbatim>\<open>have-remote-offer\<close> and no answer has
  been emitted. Likewise, with an empty queue and an offer that the browser rejects, the
  handler rolls back and ends without a remote description and without an answer.
\<close>

theorem glare_no_answer:
  "signalingState (pc (runPeer
       \<lparr>offerSdp = (\<lambda>c. ''o''), answerSdp = (\<lambda>c. ''a''),
        acceptsDescription = (\<lambda>d. sdp d \<noteq> ''x''), acceptsCandidate = (\<lambda>c. candidate c \<noteq> ''x''),
        implicitRollback = False\<rparr>
       [RecvRoomUpdated [''alice'', ''bob''], TimeoutFires 0,
        RecvIceCandidate ''bob'' \<lparr>candidate = ''x'', sdpMid = Some ''0'', sdpMLineIndex = None\<rparr>]
       (initialPeer ''alice'' ''R1''))) = HaveLocalOffer \<and>
   currentRemoteDescription (pc (runPeer
       \<lparr>offerSdp = (\<lambda>c. ''o''), answerSdp = (\<lambda>c. ''a''),
        acceptsDescription = (\<lambda>d. sdp d \<noteq> ''x''), acceptsCandidate = (\<lambda>c. candidate c \<noteq> ''x''),
        implicitRollback = False\<rparr>
       [RecvRoomUpdated [''alice'', ''bob''], TimeoutFires 0,
        RecvIceCandidate ''bob'' \<lparr>candidate = ''x'', sdpMid = Some ''0'', sdpMLineIndex = None\<rparr>]
       (initialPeer ''alice'' ''R1''))) = None \<and>
   runPeer
       \<lparr>offerSdp = (\<lambda>c. ''o''), answerSdp = (\<lambda>c. ''a''),
        acceptsDescription = (\<lambda>d. sdp d \<noteq> ''x''), acceptsCandidate = (\<lambda>c. candidate c \<noteq> ''x''),
        implicitRollback = False\<rparr>
       [RecvRoomUpdated [''alice'', ''bob''], TimeoutFires 0,
        RecvIceCandidate ''bob'' \<lparr>candidate = ''x'', sdpMid = Some ''0'', sdpMLineIndex = None\<rparr>,
        RecvOffer ''bob'' \<lparr>sdpType = OfferType, sdp = ''b''\<rparr>]
       (initialPeer ''alice'' ''R1'')
     = \<lparr>username = ''alice'', callRoomId = ''R1'',
        pc = \<lparr>signalingState = HaveRemoteOffer,
              pendingLocalDescription = None,
              currentLocalDescription = None,
              pendingRemoteDescription = Some \<lparr>sdpType = OfferType, sdp = ''b''\<rparr>,
              currentRemoteDescription = None,
              addedCandidates = []\<rparr>,
        isInitiator = True, pendingCandidates = [], timeouts = [],
        sentMsgs = [EmitOffer ''R1'' ''alice'' \<lparr>sdpType = OfferType, sdp = ''o''\<rparr>],
        consoleErrors = [''Error handling offer'']\<rparr> \<and>
   runPeer
       \<lparr>offerSdp = (\<lambda>c. ''o''), answerSdp = (\<lambda>c. ''a''),
        acceptsDescription = (\<lambda>d. sdp d \<noteq> ''x''), acceptsCandidate = (\<lambda>c. candidate c \<noteq> ''x''),
        implicitRollback = False\<rparr>
       [RecvRoomUpdated [''alice'', ''bob''], TimeoutFires 0,
        RecvOffer ''bob'' \<lparr>sdpType = OfferType, sdp = ''x''\<rparr>]
       (initialPeer ''alice'' ''R1'')
     = \<lparr>username = ''alice'', callRoomId = ''R1'',
        pc = \<lparr>signalingState = Stable,
              pendingLocalDescription = None,
              currentLocalDescription = None,
              pendingRemoteDescription = None,
              currentRemoteDescription = None,
              addedCandidates = []\<rparr>,
        isInitiator = True, pendingCandidates = [], timeouts = [],
        sentMsgs = [EmitOffer ''R1'' ''alice'' \<lparr>sdpType = OfferType, sdp = ''o''\<rparr>],
        consoleErrors = [''Error handling offer'']\<rparr>"
  by (simp add: initialPeer_def newPeerConnection_def onRoomUpdated_def onTimeout_def
        createOffer_def tryCatch_def sendOffer_def pc_createOffer_def
        pc_setLocalDescription_def onWebrtcIceCandidate_def addOrQueue_def
        newRTCIceCandidate_def remoteDescription_def onWebrtcOffer_def
        rollbackUnlessStable_def awaitPc_def pc_rollback_def pc_setRemoteDescription_def
        processPending_def pc_addIceCandidate_def logError_def)

text \<open>
  C2, amended. Take a peer in any state that events can bring it to, with a local offer
  set (\<^verbatim>\<open>have-local-offer\<close>) and no remote description committed, and let an offer from
  another identity arrive. Whoever the two identities are and whatever the browser does
  with the incoming offer, the handler rolls the local offer back: afterwards no local
  offer is pending and the connection is not in \<^verbatim>\<open>have-local-offer\<close>; and whatever
  events follow, the peer emits no further offer. If the message carries an offer that
  the browser accepts, and the browser accepts the queued candidates, then the incoming
  offer becomes the remote description, the queued candidates are added, one answer is
  emitted, and the connection is \<^verbatim>\<open>stable\<close>. This holds also for a browser that has no
  implicit rollback.
\<close>

theorem glare_rollback:
  assumes "p = runPeer B evs (initialPeer uname rid)"
    and "signalingState (pc p) = HaveLocalOffer"
    and "currentRemoteDescription (pc p) = None"
    and "src \<noteq> uname"
  shows "pendingLocalDescription (pc (peerStep B (RecvOffer src offer) p)) = None \<and>
         signalingState (pc (peerStep B (RecvOffer src offer) p)) \<noteq> HaveLocalOffer \<and>
         (\<forall>later. filter isOffer (sentMsgs (runPeer B later (peerStep B (RecvOffer src offer) p)))
                   = filter isOffer (sentMsgs p)) \<and>
         (sdpType offer = OfferType \<and> acceptsDescription B offer \<and>
          (\<forall>cand \<in> set (pendingCandidates p). acceptsCandidate B cand) \<longrightarrow>
          (\<exists>answer.
             sdpType answer = AnswerType \<and>
             peerStep B (RecvOffer src offer) p =
               p\<lparr>isInitiator := True,
                 pc := (pc p)\<lparr>signalingState := Stable,
                               pendingLocalDescription := None,
                               currentLocalDescription := Some answer,
                               pendingRemoteDescription := None,
                               currentRemoteDescription := Some offer,
                               addedCandidates := addedCandidates (pc p) @ pendingCandidates p\<rparr>,
                 pendingCandidates := [],
                 sentMsgs := sentMsgs p @ [EmitAnswer rid uname answer]\<rparr>))"
proof -
  let ?q = "onWebrtcOffer B src offer p"
  have u: "username p = uname" and r: "callRoomId p = rid"
    using assms(1) props_runPeer [of B evs "initialPeer uname rid"]
    by (simp_all add: initialPeer_def)
  have s: "src \<noteq> username p" using assms(4) u by simp
  have "timerInv p"
    using assms(1) by (simp add: timerInv_runPeer timerInv_initialPeer)
  then have t: "timeouts p = []" using assms(2) by (auto simp: timerInv_def)
  have n: "noLocalOffer ?q"
    using assms(2,3) s by (rule glare_rolls_back)
  have c: "calm (p\<lparr>isInitiator := True\<rparr>) ?q"
    using s by (rule calm_onWebrtcOffer)
  have i: "isInitiator ?q" and t': "timeouts ?q = []"
    and o: "filter isOffer (sentMsgs ?q) = filter isOffer (sentMsgs p)"
    using c t by (simp_all add: calm_def)
  have never: "filter isOffer (sentMsgs (runPeer B later ?q)) = filter isOffer (sentMsgs p)"
    for later
    using no_offer_runPeer [OF i t', of B later] o by simp
  have answered: "\<exists>answer.
             sdpType answer = AnswerType \<and>
             ?q =
               p\<lparr>isInitiator := True,
                 pc := (pc p)\<lparr>signalingState := Stable,
                               pendingLocalDescription := None,
                               currentLocalDescription := Some answer,
                               pendingRemoteDescription := None,
                               currentRemoteDescription := Some offer,
                               addedCandidates := addedCandidates (pc p) @ pendingCandidates p\<rparr>,
                 pendingCandidates := [],
                 sentMsgs := sentMsgs p @ [EmitAnswer rid uname answer]\<rparr>"
    if "sdpType offer = OfferType" "acceptsDescription B offer"
      "\<forall>cand \<in> set (pendingCandidates p). acceptsCandidate B cand"
    using glare_step [OF assms(2,3) s that] u r by simp
  show ?thesis
    using n never answered by (simp add: noLocalOffer_def)
qed

theorem glare_rollback_witness:
  "signalingState (pc (runPeer
       \<lparr>offerSdp = (\<lambda>c. ''o''), answerSdp = (\<lambda>c. ''a''),
        acceptsDescription = (\<lambda>d. True), acceptsCandidate = (\<lambda>c. True),
        implicitRollback = False\<rparr>
       [RecvRoomUpdated [''alice'', ''bob''], TimeoutFires 0,
        RecvIceCandidate ''bob'' \<lparr>candidate = ''c1'', sdpMid = Some ''0'', sdpMLineIndex = None\<rparr>]
       (initialPeer ''alice'' ''R1''))) = HaveLocalOffer \<and>
   peerStep
       \<lparr>offerSdp = (\<lambda>c. ''o''), answerSdp = (\<lambda>c. ''a''),
        acceptsDescription = (\<lambda>d. True), acceptsCandidate = (\<lambda>c. True),
        implicitRollback = False\<rparr>
       (RecvOffer ''bob'' \<lparr>sdpType = OfferType, sdp = ''b''\<rparr>)
       (runPeer
         \<lparr>offerSdp = (\<lambda>c. ''o''), answerSdp = (\<lambda>c. ''a''),
          acceptsDescription = (\<lambda>d. True), acceptsCandidate = (\<lambda>c. True),
          implicitRollback = False\<rparr>
         [RecvRoomUpdated [''alice'', ''bob''], TimeoutFires 0,
          RecvIceCandidate ''bob''
            \<lparr>candidate = ''c1'', sdpMid = Some ''0'', sdpMLineIndex = None\<rparr>]
         (initialPeer ''alice'' ''R1''))
     = \<lparr>username = ''alice'', callRoomId = ''R1'',
        pc = \<lparr>signalingState = Stable,
              pendingLocalDescription = None,
              currentLocalDescription = Some \<lparr>sdpType = AnswerType, sdp = ''a''\<rparr>,
              pendingRemoteDescription = None,
              currentRemoteDescription = Some \<lparr>sdpType = OfferType, sdp = ''b''\<rparr>,
              addedCandidates =
                [\<lparr>candidate = ''c1'', sdpMid = Some ''0'', sdpMLineIndex = None\<rparr>]\<rparr>,
        isInitiator = True, pendingCandidates = [], timeouts = [],
        sentMsgs = [EmitOffer ''R1'' ''alice'' \<lparr>sdpType = OfferType, sdp = ''o''\<rparr>,
                    EmitAnswer ''R1'' ''alice'' \<lparr>sdpType = AnswerType, sdp = ''a''\<rparr>],
        consoleErrors = []\<rparr> \<and>
   filter isOffer (sentMsgs (runPeer
       \<lparr>offerSdp = (\<lambda>c. ''o''), answerSdp = (\<lambda>c. ''a''),
        acceptsDescription = (\<lambda>d. True), acceptsCandidate = (\<lambda>c. True),
        implicitRollback = False\<rparr>
       [RecvRoomUpdated [''alice'', ''bob''], TimeoutFires 0]
       (peerStep
         \<lparr>offerSdp = (\<lambda>c. ''o''), answerSdp = (\<lambda>c. ''a''),
          acceptsDescription = (\<lambda>d. True), acceptsCandidate = (\<lambda>c. True),
          implicitRollback = False\<rparr>
         (RecvOffer ''bob'' \<lparr>sdpType = OfferType, sdp = ''b''\<rparr>)
         (runPeer
           \<lparr>offerSdp = (\<lambda>c. ''o''), answerSdp = (\<lambda>c. ''a''),
            acceptsDescription = (\<lambda>d. True), acceptsCandidate = (\<lambda>c. True),
            implicitRollback = False\<rparr>
           [RecvRoomUpdated [''alice'', ''bob''], TimeoutFires 0,
            RecvIceCandidate ''bob''
              \<lparr>candidate = ''c1'', sdpMid = Some ''0'', sdpMLineIndex = None\<rparr>]
           (initialPeer ''alice'' ''R1'')))))
     = [EmitOffer ''R1'' ''alice'' \<lparr>sdpType = OfferType, sdp = ''o''\<rparr>]"
proof -
  let ?B = "\<lparr>offerSdp = (\<lambda>c. ''o''), answerSdp = (\<lambda>c. ''a''),
             acceptsDescription = (\<lambda>d. True), acceptsCandidate = (\<lambda>c. True),
             implicitRollback = False\<rparr>"
  let ?c1 = "\<lparr>candidate = ''c1'', sdpMid = Some ''0'', sdpMLineIndex = None\<rparr>"
  let ?evs = "[RecvRoomUpdated [''alice'', ''bob''], TimeoutFires 0, RecvIceCandidate ''bob'' ?c1]"
  let ?p = "runPeer ?B ?evs (initialPeer ''alice'' ''R1'')"
  let ?offer = "\<lparr>sdpType = OfferType, sdp = ''b''\<rparr>"
  have p: "?p = \<lparr>username = ''alice'', callRoomId = ''R1'',
        pc = \<lparr>signalingState = HaveLocalOffer,
              pendingLocalDescription = Some \<lparr>sdpType = OfferType, sdp = ''o''\<rparr>,
              currentLocalDescription = None,
              pendingRemoteDescription = None,
              currentRemoteDescription = None,
              addedCandidates = []\<rparr>,
        isInitiator = True, pendingCandidates = [?c1], timeouts = [],
        sentMsgs = [EmitOffer ''R1'' ''alice'' \<lparr>sdpType = OfferType, sdp = ''o''\<rparr>],
        consoleErrors = []\<rparr>"
    by (simp add: initialPeer_def newPeerConnection_def onRoomUpdated_def onTimeout_def
          createOffer_def tryCatch_def sendOffer_def pc_createOffer_def
          pc_setLocalDescription_def onWebrtcIceCandidate_def addOrQueue_def
          newRTCIceCandidate_def remoteDescription_def)
  have h2: "signalingState (pc ?p) = HaveLocalOffer" unfolding p by simp
  have h3: "currentRemoteDescription (pc ?p) = None" unfolding p by simp
  have h4: "''bob'' \<noteq> ''alice''" by simp
  have h5: "sdpType ?offer = OfferType \<and> acceptsDescription ?B ?offer \<and>
            (\<forall>cand \<in> set (pendingCandidates ?p). acceptsCandidate ?B cand)"
    by simp
  note t = glare_rollback [OF refl h2 h3 h4, of ?offer]
  have e: "peerStep ?B (RecvOffer ''bob'' ?offer) ?p =
      \<lparr>username = ''alice'', callRoomId = ''R1'',
        pc = \<lparr>signalingState = Stable,
              pendingLocalDescription = None,
              currentLocalDescription = Some \<lparr>sdpType = AnswerType, sdp = ''a''\<rparr>,
              pendingRemoteDescription = None,
              currentRemoteDescription = Some \<lparr>sdpType = OfferType, sdp = ''b''\<rparr>,
              addedCandidates = [?c1]\<rparr>,
        isInitiator = True, pendingCandidates = [], timeouts = [],
        sentMsgs = [EmitOffer ''R1'' ''alice'' \<lparr>sdpType = OfferType, sdp = ''o''\<rparr>,
                    EmitAnswer ''R1'' ''alice'' \<lparr>sdpType = AnswerType, sdp = ''a''\<rparr>],
        consoleErrors = []\<rparr>"
    unfolding p
    by (simp add: onWebrtcOffer_def tryCatch_def rollbackUnlessStable_def awaitPc_def
          pc_rollback_def pc_setRemoteDescription_def processPending_def
          pc_addIceCandidate_def remoteDescription_def sendAnswer_def pc_createAnswer_def
          pc_setLocalDescription_def)
  have f: "filter isOffer (sentMsgs ?p)
          = [EmitOffer ''R1'' ''alice'' \<lparr>sdpType = OfferType, sdp = ''o''\<rparr>]"
    unfolding p by simp
  note n = t [THEN conjunct2, THEN conjunct2, THEN conjunct1, THEN spec,
              of "[RecvRoomUpdated [''alice'', ''bob''], TimeoutFires 0]"]
  note a = t [THEN conjunct2, THEN conjunct2, THEN conjunct2, THEN mp, OF h5]
  have e': "peerStep ?B (RecvOffer ''bob'' ?offer) ?p =
      \<lparr>username = ''alice'', callRoomId = ''R1'',
        pc = \<lparr>signalingState = Stable,
              pendingLocalDescription = None,
              currentLocalDescription = Some \<lparr>sdpType = AnswerType, sdp = ''a''\<rparr>,
              pendingRemoteDescription = None,
              currentRemoteDescription = Some \<lparr>sdpType = OfferType, sdp = ''b''\<rparr>,
              addedCandidates = [?c1]\<rparr>,
        isInitiator = True, pendingCandidates = [], timeouts = [],
        sentMsgs = [EmitOffer ''R1'' ''alice'' \<lparr>sdpType = OfferType, sdp = ''o''\<rparr>,
                    EmitAnswer ''R1'' ''alice'' \<lparr>sdpType = AnswerType, sdp = ''a''\<rparr>],
        consoleErrors = []\<rparr>"
    using a e by blast
  show ?thesis
    by (intro conjI) (rule h2, rule e', rule trans [OF n f])
qed

subsection \<open>Candidates under a browser that accepts them\<close>


lemma candInv_logError [simp]: "candInv B (logError msg p) = candInv B p"
  by (simp add: candInv_def logError_def)

lemma sameCandidates_logError [simp]: "sameCandidates p (logError msg q) = sameCandidates p q"
  by (simp add: sameCandidates_def logError_def)
















subsection \<open>No candidate is lost without a log entry\<close>

lemma accounted_logError [simp]: "accounted (logError msg p) = Suc (accounted p)"
  by (simp add: accounted_def logError_def)














subsection \<open>Candidates are queued and added in order\<close>




end
